theory Spec2Isabelle
  imports Complex_Main "HOL-Library.AList" "HOL-Library.Sublist" "HOL-Library.Monad_Syntax"
begin

section \<open>Python values and the operations the scripts apply to them\<close>

text \<open>
  The three scripts read JSON with \<^verbatim>\<open>json.load\<close> and work on the parsed values with
  dynamically typed operations. A parsed value is a \<open>json\<close>; an object keeps its items
  in insertion order with distinct keys, as the parsed \<^verbatim>\<open>dict\<close> does. Numbers are
  integers (floating point is outside this development). A string is a list of
  characters with code points below 256, the Latin-1 part of Python's \<^verbatim>\<open>str\<close>.
\<close>

datatype json =
    JNull
  | JBool bool
  | JInt int
  | JStr string
  | JList "json list"
  | JObj "(string \<times> json) list"

datatype py_error =
    TypeError
  | AttributeError
  | KeyError
  | ValueError
  | ZeroDivisionError
  | FileNotFoundError

text \<open>Sequencing of computations that may raise: the first exception wins.\<close>

definition ebind :: "py_error + 'a \<Rightarrow> ('a \<Rightarrow> py_error + 'b) \<Rightarrow> py_error + 'b" where
  "ebind m f = (case m of Inl e \<Rightarrow> Inl e | Inr x \<Rightarrow> f x)"

text \<open>A computation that raises nothing but \<^verbatim>\<open>ValueError\<close>.\<close>

definition only_value_error :: "py_error + 'a \<Rightarrow> bool" where
  "only_value_error m = (case m of Inl e \<Rightarrow> e = ValueError | Inr _ \<Rightarrow> True)"

text \<open>\<^verbatim>\<open>x.get(k)\<close> and \<^verbatim>\<open>x.get(k, d)\<close>: only a dict has the method.\<close>

definition dict_get_default :: "json \<Rightarrow> string \<Rightarrow> json \<Rightarrow> py_error + json" where
  "dict_get_default x k d =
     (case x of
        JObj kvs \<Rightarrow> Inr (case map_of kvs k of None \<Rightarrow> d | Some v \<Rightarrow> v)
      | _ \<Rightarrow> Inl AttributeError)"

definition dict_get :: "json \<Rightarrow> string \<Rightarrow> py_error + json" where
  "dict_get x k = dict_get_default x k JNull"

text \<open>\<^verbatim>\<open>k in x\<close> for a string \<open>k\<close>: key membership in a dict, element membership in a
  list, substring test in a string, \<^verbatim>\<open>TypeError\<close> on anything else.\<close>

definition is_substring :: "string \<Rightarrow> string \<Rightarrow> bool" where
  "is_substring k s = list_ex (\<lambda>t. take (length k) t = k) (suffixes s)"

definition py_contains :: "string \<Rightarrow> json \<Rightarrow> py_error + bool" where
  "py_contains k x =
     (case x of
        JObj kvs \<Rightarrow> Inr (map_of kvs k \<noteq> None)
      | JList xs \<Rightarrow> Inr (JStr k \<in> set xs)
      | JStr s \<Rightarrow> Inr (is_substring k s)
      | _ \<Rightarrow> Inl TypeError)"

text \<open>\<^verbatim>\<open>x[k]\<close> for a string \<open>k\<close>: \<^verbatim>\<open>KeyError\<close> on a dict without the key,
  \<^verbatim>\<open>TypeError\<close> on every other value (a list or a string wants integer indices, the
  rest is not subscriptable).\<close>

definition py_subscript :: "json \<Rightarrow> string \<Rightarrow> py_error + json" where
  "py_subscript x k =
     (case x of
        JObj kvs \<Rightarrow> (case map_of kvs k of None \<Rightarrow> Inl KeyError | Some v \<Rightarrow> Inr v)
      | _ \<Rightarrow> Inl TypeError)"

text \<open>\<^verbatim>\<open>for v in x\<close>: the elements of a list, the characters of a string, the keys of
  a dict; \<^verbatim>\<open>TypeError\<close> on \<^verbatim>\<open>None\<close>, a bool or a number.\<close>

definition py_iter :: "json \<Rightarrow> py_error + json list" where
  "py_iter x =
     (case x of
        JList xs \<Rightarrow> Inr xs
      | JStr s \<Rightarrow> Inr (map (\<lambda>c. JStr [c]) s)
      | JObj kvs \<Rightarrow> Inr (map (\<lambda>kv. JStr (fst kv)) kvs)
      | _ \<Rightarrow> Inl TypeError)"

text \<open>Truth value of a parsed value, as \<^verbatim>\<open>if x:\<close> tests it.\<close>

definition truthy :: "json \<Rightarrow> bool" where
  "truthy x =
     (case x of
        JNull \<Rightarrow> False
      | JBool b \<Rightarrow> b
      | JInt n \<Rightarrow> n \<noteq> 0
      | JStr s \<Rightarrow> s \<noteq> []
      | JList xs \<Rightarrow> xs \<noteq> []
      | JObj kvs \<Rightarrow> kvs \<noteq> [])"

text \<open>\<^verbatim>\<open>len(x)\<close>.\<close>

definition py_len :: "json \<Rightarrow> py_error + nat" where
  "py_len x =
     (case x of
        JStr s \<Rightarrow> Inr (length s)
      | JList xs \<Rightarrow> Inr (length xs)
      | JObj kvs \<Rightarrow> Inr (length kvs)
      | _ \<Rightarrow> Inl TypeError)"

subsection \<open>Digits, \<^verbatim>\<open>str.isdigit\<close>, \<^verbatim>\<open>int\<close> and \<^verbatim>\<open>str\<close> of an integer\<close>

definition is_decimal :: "char \<Rightarrow> bool" where
  "is_decimal c = (48 \<le> (of_char c :: int) \<and> (of_char c :: int) \<le> 57)"

text \<open>Below code point 256, \<^verbatim>\<open>str.isdigit\<close> holds of the ten decimal digits and of the
  superscript digits U+00B2, U+00B3 and U+00B9, which are digits but not decimals.\<close>

definition isdigit_char :: "char \<Rightarrow> bool" where
  "isdigit_char c =
     (is_decimal c \<or> (of_char c :: int) = 178 \<or> (of_char c :: int) = 179
        \<or> (of_char c :: int) = 185)"

definition isdigit :: "string \<Rightarrow> bool" where
  "isdigit s = (s \<noteq> [] \<and> list_all isdigit_char s)"

definition digit_val :: "char \<Rightarrow> int" where
  "digit_val c = (of_char c :: int) - 48"

text \<open>\<^verbatim>\<open>int(s)\<close> on a string of digit characters (no sign, blank or underscore, which
  \<^verbatim>\<open>isdigit\<close> has excluded where the scripts call it): the decimal value, and
  \<^verbatim>\<open>ValueError\<close> when a character is not a decimal digit.\<close>

definition py_int :: "string \<Rightarrow> py_error + int" where
  "py_int s =
     (if s \<noteq> [] \<and> list_all is_decimal s
      then Inr (foldl (\<lambda>a c. 10 * a + digit_val c) 0 s)
      else Inl ValueError)"

definition digit_char :: "int \<Rightarrow> char" where
  "digit_char d = char_of (48 + d)"

text \<open>The decimal digits of a number that is not negative.\<close>

function str_digits :: "int \<Rightarrow> string" where
  "str_digits n =
     (if n < 10 then [digit_char n] else str_digits (n div 10) @ [digit_char (n mod 10)])"
  by pat_completeness auto
termination
  by (relation "measure nat") auto

text \<open>\<^verbatim>\<open>str(i)\<close>, which is also how an f-string prints an integer.\<close>

definition str_int :: "int \<Rightarrow> string" where
  "str_int i = (if i < 0 then CHR ''-'' # str_digits (- i) else str_digits i)"

text \<open>\<^verbatim>\<open>s[a:b]\<close> for \<open>0 \<le> a \<le> b\<close>.\<close>

definition slice :: "nat \<Rightarrow> nat \<Rightarrow> 'a list \<Rightarrow> 'a list" where
  "slice a b s = take (b - a) (drop a s)"

section \<open>\<^verbatim>\<open>process_housing_data.py\<close>: the TMK formatter\<close>

definition convert_to_tmk_format :: "string \<Rightarrow> py_error + string" where
  "convert_to_tmk_format parcel_number =
     (if length parcel_number \<noteq> 13 \<or> \<not> isdigit parcel_number then Inr parcel_number
      else
        let zone = slice 0 1 parcel_number in
        ebind (py_int (slice 1 2 parcel_number)) (\<lambda>sec.
        ebind (py_int (slice 2 3 parcel_number)) (\<lambda>plat.
        ebind (py_int (slice 3 6 parcel_number)) (\<lambda>parcel.
        ebind (py_int (slice 6 9 parcel_number)) (\<lambda>lot.
        ebind (py_int (slice 9 13 parcel_number)) (\<lambda>cpr.
          let tmk = zone @ ''-'' @ str_int sec @ ''-'' @ str_int plat @ ''-''
                      @ str_int parcel @ ''-'' @ str_int lot
          in Inr (if cpr \<noteq> 0 then tmk @ ''-'' @ str_int cpr else tmk)))))))"

section \<open>\<^verbatim>\<open>datetime.strptime\<close> with the format of the fetch script\<close>

text \<open>
  The fetch script parses dates with the format \<^verbatim>\<open>%Y-%m-%dT%H:%M:%S%z\<close>. CPython
  (3.7 to 3.11, \<^verbatim>\<open>Lib/_strptime.py\<close>) turns each directive into a group of a regular
  expression, matches it case-insensitively at the start of the string, refuses
  unconverted data after the match, converts the groups with \<^verbatim>\<open>int\<close>, and builds the
  \<^verbatim>\<open>datetime\<close>, whose constructor checks the calendar date, the seconds and the offset.
  A group's alternatives are tried in order. Every numeric group of this format is
  followed by a character that is no digit, so the first alternative that matches is the
  one a backtracking matcher ends with.
\<close>

type_synonym cclass = "char \<Rightarrow> bool"

definition ch :: "char \<Rightarrow> cclass" where
  "ch a c = (c = a)"

definition rng :: "char \<Rightarrow> char \<Rightarrow> cclass" where
  "rng a b c = ((of_char a :: int) \<le> of_char c \<and> (of_char c :: int) \<le> of_char b)"

fun match_seq :: "cclass list \<Rightarrow> string \<Rightarrow> (string \<times> string) option" where
  "match_seq [] s = Some ([], s)"
| "match_seq (p # ps) [] = None"
| "match_seq (p # ps) (c # s) =
     (if p c then map_option (\<lambda>mr. (c # fst mr, snd mr)) (match_seq ps s) else None)"

fun match_alt :: "cclass list list \<Rightarrow> string \<Rightarrow> (string \<times> string) option" where
  "match_alt [] s = None"
| "match_alt (a # alts) s =
     (case match_seq a s of Some r \<Rightarrow> Some r | None \<Rightarrow> match_alt alts s)"

text \<open>An optional part: matched when it can be, skipped otherwise.\<close>

definition match_opt :: "(string \<Rightarrow> (string \<times> string) option) \<Rightarrow> string \<Rightarrow> string \<times> string" where
  "match_opt m s = (case m s of Some r \<Rightarrow> r | None \<Rightarrow> ([], s))"

definition re_Y :: "cclass list list" where
  "re_Y = [[is_decimal, is_decimal, is_decimal, is_decimal]]"

definition re_m :: "cclass list list" where
  "re_m = [[ch CHR ''1'', rng CHR ''0'' CHR ''2''], [ch CHR ''0'', rng CHR ''1'' CHR ''9''],
           [rng CHR ''1'' CHR ''9'']]"

definition re_d :: "cclass list list" where
  "re_d = [[ch CHR ''3'', rng CHR ''0'' CHR ''1''], [rng CHR ''1'' CHR ''2'', is_decimal],
           [ch CHR ''0'', rng CHR ''1'' CHR ''9''], [rng CHR ''1'' CHR ''9''],
           [ch CHR '' '', rng CHR ''1'' CHR ''9'']]"

definition re_H :: "cclass list list" where
  "re_H = [[ch CHR ''2'', rng CHR ''0'' CHR ''3''], [rng CHR ''0'' CHR ''1'', is_decimal],
           [is_decimal]]"

definition re_M :: "cclass list list" where
  "re_M = [[rng CHR ''0'' CHR ''5'', is_decimal], [is_decimal]]"

definition re_S :: "cclass list list" where
  "re_S = [[ch CHR ''6'', rng CHR ''0'' CHR ''1''], [rng CHR ''0'' CHR ''5'', is_decimal],
           [is_decimal]]"

text \<open>The literal characters of the format; the match ignores case, so \<open>t\<close> stands for
  \<open>T\<close>.\<close>

definition re_dash :: "cclass list list" where
  "re_dash = [[ch CHR ''-'']]"

definition re_colon :: "cclass list list" where
  "re_colon = [[ch CHR '':'']]"

definition re_T :: "cclass list list" where
  "re_T = [[\<lambda>c. c = CHR ''T'' \<or> c = CHR ''t'']]"

text \<open>\<^verbatim>\<open>\.\d{1,6}\<close>: a dot and one to six digits, as many as there are.\<close>

definition match_fraction :: "string \<Rightarrow> (string \<times> string) option" where
  "match_fraction s =
     (case s of
        c # r \<Rightarrow>
          (if c = CHR ''.'' \<and> r \<noteq> [] \<and> is_decimal (hd r)
           then let ds = takeWhile is_decimal (take 6 r)
                in Some (c # ds, drop (length ds) r)
           else None)
      | [] \<Rightarrow> None)"

text \<open>\<^verbatim>\<open>:?[0-5]\d(\.\d{1,6})?\<close>: the seconds of an offset.\<close>

definition match_offset_seconds :: "string \<Rightarrow> (string \<times> string) option" where
  "match_offset_seconds s =
     (let cr = match_opt (match_alt re_colon) s in
      case match_alt [[rng CHR ''0'' CHR ''5'', is_decimal]] (snd cr) of
        None \<Rightarrow> None
      | Some sr \<Rightarrow>
          let fr = match_opt match_fraction (snd sr)
          in Some (fst cr @ fst sr @ fst fr, snd fr))"

text \<open>\<^verbatim>\<open>[+-]\d\d:?[0-5]\d(:?[0-5]\d(\.\d{1,6})?)?|(?-i:Z)\<close>.\<close>

definition re_z :: "string \<Rightarrow> (string \<times> string) option" where
  "re_z s =
     (case match_alt [[\<lambda>c. c = CHR ''+'' \<or> c = CHR ''-'', is_decimal, is_decimal]] s of
        Some hr \<Rightarrow>
          (let cr = match_opt (match_alt re_colon) (snd hr) in
           case match_alt [[rng CHR ''0'' CHR ''5'', is_decimal]] (snd cr) of
             None \<Rightarrow> match_alt [[ch CHR ''Z'']] s
           | Some mr \<Rightarrow>
               let sr = match_opt match_offset_seconds (snd mr)
               in Some (fst hr @ fst cr @ fst mr @ fst sr, snd sr))
      | None \<Rightarrow> match_alt [[ch CHR ''Z'']] s)"

text \<open>The groups \<open>Y, m, d, H, M, S, z\<close> of a string the whole of which matches.\<close>

definition strptime_groups ::
  "string \<Rightarrow> (string \<times> string \<times> string \<times> string \<times> string \<times> string \<times> string) option" where
  "strptime_groups s =
     do {
       (gY, s1) \<leftarrow> match_alt re_Y s;
       (_, s2) \<leftarrow> match_alt re_dash s1;
       (gm, s3) \<leftarrow> match_alt re_m s2;
       (_, s4) \<leftarrow> match_alt re_dash s3;
       (gd, s5) \<leftarrow> match_alt re_d s4;
       (_, s6) \<leftarrow> match_alt re_T s5;
       (gH, s7) \<leftarrow> match_alt re_H s6;
       (_, s8) \<leftarrow> match_alt re_colon s7;
       (gM, s9) \<leftarrow> match_alt re_M s8;
       (_, s10) \<leftarrow> match_alt re_colon s9;
       (gS, s11) \<leftarrow> match_alt re_S s10;
       (gz, s12) \<leftarrow> re_z s11;
       if s12 = [] then Some (gY, gm, gd, gH, gM, gS, gz) else None
     }"

text \<open>The offset of the \<open>z\<close> group in microseconds, as \<^verbatim>\<open>_strptime\<close> computes it: a
  colon after the hours asks for one before the seconds, and the pieces are read at
  fixed positions.\<close>

definition tz_offset :: "string \<Rightarrow> py_error + int" where
  "tz_offset z0 =
     (if z0 = ''Z'' then Inr 0
      else
        ebind
          (if z0 ! 3 = CHR '':''
           then (let z1 = take 3 z0 @ drop 4 z0 in
                 if length z1 > 5
                 then (if z1 ! 5 \<noteq> CHR '':'' then Inl ValueError
                       else Inr (take 5 z1 @ drop 6 z1))
                 else Inr z1)
           else Inr z0)
          (\<lambda>z.
        ebind (py_int (slice 1 3 z)) (\<lambda>hours.
        ebind (py_int (slice 3 5 z)) (\<lambda>minutes.
        ebind (if slice 5 7 z = [] then Inr 0 else py_int (slice 5 7 z)) (\<lambda>seconds.
          let gmtoff = hours * 60 * 60 + minutes * 60 + seconds;
              gmtoff_remainder = drop 8 z;
              padded = gmtoff_remainder @ replicate (6 - length gmtoff_remainder) CHR ''0''
          in
        ebind (py_int padded) (\<lambda>gmtoff_fraction.
          let us = gmtoff * 1000000 + gmtoff_fraction
          in Inr (if hd z = CHR ''-'' then - us else us)))))))"

definition leap_year :: "int \<Rightarrow> bool" where
  "leap_year y = (y mod 4 = 0 \<and> (y mod 100 \<noteq> 0 \<or> y mod 400 = 0))"

definition days_in_month :: "int \<Rightarrow> int \<Rightarrow> int" where
  "days_in_month y m =
     (if m = 2 then (if leap_year y then 29 else 28)
      else if m = 4 \<or> m = 6 \<or> m = 9 \<or> m = 11 then 30 else 31)"

definition valid_date :: "int \<Rightarrow> int \<Rightarrow> int \<Rightarrow> bool" where
  "valid_date y m d =
     (1 \<le> y \<and> y \<le> 9999 \<and> 1 \<le> m \<and> m \<le> 12 \<and> 1 \<le> d \<and> d \<le> days_in_month y m)"

record datetime =
  dt_year :: int
  dt_month :: int
  dt_day :: int
  dt_hour :: int
  dt_minute :: int
  dt_second :: int
  dt_utcoffset :: int

definition strptime :: "string \<Rightarrow> py_error + datetime" where
  "strptime data_string =
     (case strptime_groups data_string of
        None \<Rightarrow> Inl ValueError
      | Some (gY, gm, gd, gH, gM, gS, gz) \<Rightarrow>
          ebind (py_int gY) (\<lambda>year.
          ebind (py_int gm) (\<lambda>month.
          ebind (py_int (dropWhile (\<lambda>c. c = CHR '' '') gd)) (\<lambda>day.
          ebind (py_int gH) (\<lambda>hour.
          ebind (py_int gM) (\<lambda>minute.
          ebind (py_int gS) (\<lambda>second.
          ebind (tz_offset gz) (\<lambda>off.
            if \<not> valid_date year month day then Inl ValueError
            else if \<not> (- 86400000000 < off \<and> off < 86400000000) then Inl ValueError
            else if 59 < second then Inl ValueError
            else Inr \<lparr>dt_year = year, dt_month = month, dt_day = day, dt_hour = hour,
                       dt_minute = minute, dt_second = second, dt_utcoffset = off\<rparr>))))))))"

text \<open>\<^verbatim>\<open>datetime.strptime(x, fmt)\<close> on a parsed value: \<^verbatim>\<open>TypeError\<close> unless it is a
  string.\<close>

definition py_strptime :: "json \<Rightarrow> py_error + datetime" where
  "py_strptime x = (case x of JStr s \<Rightarrow> strptime s | _ \<Rightarrow> Inl TypeError)"


section \<open>\<^verbatim>\<open>fetch_housing_data.py\<close>\<close>

subsection \<open>The output file\<close>

text \<open>
  Both writers build their output file from a few pieces: the opening bracket, the closing
  bracket, the separator after or before an element, the JSON text of one value, and the
  comment line of \<^verbatim>\<open>_write_error\<close> (\<open>Comment s\<close> is the line \<^verbatim>\<open>// s\<close>). A file is the
  sequence of the pieces written to it;
  line breaks between pieces are white space to a JSON reader and are left out.
  \<^verbatim>\<open>json.load\<close> reads such a file as an array exactly when it is an opening bracket,
  values with a separator between each two, and a closing bracket, and nothing else.
  These are the files the two scripts write. A file that holds one value in another way
  (a lone \<^verbatim>\<open>{}\<close> or number, brackets nested piece by piece), which neither script
  writes, is not told apart from a file that does not parse: \<open>json_load\<close> answers for the
  arrays of the shape above.
\<close>

datatype chunk =
    Open
  | Close
  | Sep
  | Val json
  | Comment string

fun parse_items :: "chunk list \<Rightarrow> json list option" where
  "parse_items [Val v, Close] = Some [v]"
| "parse_items (Val v # Sep # rest) = map_option ((#) v) (parse_items rest)"
| "parse_items _ = None"

definition json_load :: "chunk list \<Rightarrow> json list option" where
  "json_load cs =
     (case cs of
        Open # rest \<Rightarrow> (if rest = [Close] then Some [] else parse_items rest)
      | _ \<Rightarrow> None)"

subsection \<open>The transfer filter\<close>

text \<open>\<^verbatim>\<open>all(key in x for key in keys)\<close>.\<close>

fun all_in :: "string list \<Rightarrow> json \<Rightarrow> py_error + bool" where
  "all_in [] x = Inr True"
| "all_in (k # ks) x = ebind (py_contains k x) (\<lambda>b. if b then all_in ks x else Inr False)"

text \<open>\<^verbatim>\<open>x >= n\<close> for an integer \<open>n\<close>: a bool compares as 0 or 1, and a value that is no
  number raises \<^verbatim>\<open>TypeError\<close>.\<close>

definition py_ge :: "json \<Rightarrow> int \<Rightarrow> py_error + bool" where
  "py_ge x n =
     (case x of
        JInt i \<Rightarrow> Inr (n \<le> i)
      | JBool b \<Rightarrow> Inr (n \<le> (if b then 1 else 0))
      | _ \<Rightarrow> Inl TypeError)"

text \<open>The body of the \<^verbatim>\<open>try\<close> block of one transfer: whether the transfer is appended.\<close>

definition transfer_criteria :: "json \<Rightarrow> py_error + bool" where
  "transfer_criteria transfer =
     ebind (py_subscript transfer ''Grantor'') (\<lambda>g1.
     ebind (py_subscript g1 ''Date'') (\<lambda>date.
     ebind (py_strptime date) (\<lambda>transfer_date.
       if dt_year transfer_date \<noteq> 2024 then Inr False
       else
         ebind (py_subscript transfer ''Grantor'') (\<lambda>g2.
         ebind (py_subscript g2 ''Price'') (\<lambda>price.
         ebind (py_ge price 200000) (\<lambda>enough.
           if \<not> enough then Inr False
           else
             ebind (py_subscript transfer ''Grantor'') (\<lambda>g3.
             ebind (py_subscript g3 ''InstrumentType'') (\<lambda>instrument.
               if instrument \<noteq> JStr ''DEED'' then Inr False
               else
                 ebind (py_subscript transfer ''Grantor'') (\<lambda>g4.
                 ebind (py_subscript g4 ''BureauOfConveyancesLink'') (\<lambda>link.
                   Inr (truthy link)))))))))))"

text \<open>One round of the loop over the transfers: the presence check, which stands outside
  the \<^verbatim>\<open>try\<close>, then the criteria, where a \<^verbatim>\<open>ValueError\<close> or \<^verbatim>\<open>TypeError\<close> skips the
  transfer. The result says whether the transfer is kept.\<close>

definition keep_transfer :: "json \<Rightarrow> py_error + bool" where
  "keep_transfer transfer =
     ebind (py_subscript transfer ''Grantor'') (\<lambda>grantor.
     ebind (all_in [''Date'', ''Price'', ''InstrumentType'', ''BureauOfConveyancesLink''] grantor)
       (\<lambda>present.
         if \<not> present then Inr False
         else
           (case transfer_criteria transfer of
              Inl ValueError \<Rightarrow> Inr False
            | Inl TypeError \<Rightarrow> Inr False
            | Inl e \<Rightarrow> Inl e
            | Inr b \<Rightarrow> Inr b)))"

fun filter_transfers :: "json list \<Rightarrow> py_error + json list" where
  "filter_transfers [] = Inr []"
| "filter_transfers (transfer # rest) =
     ebind (keep_transfer transfer) (\<lambda>keep.
     ebind (filter_transfers rest) (\<lambda>kept.
       Inr (if keep then transfer # kept else kept)))"

definition extract_taxmapkey_fields :: "json \<Rightarrow> py_error + json" where
  "extract_taxmapkey_fields taxmapkey =
     ebind (dict_get taxmapkey ''ParcelNumber'') (\<lambda>parcel_number.
     ebind (dict_get taxmapkey ''LastSaleDate'') (\<lambda>last_sale_date.
     ebind (dict_get taxmapkey ''LastSalePrice'') (\<lambda>last_sale_price.
     ebind (dict_get taxmapkey ''LastSaleInstrument'') (\<lambda>last_sale_instrument.
       let result = [(''ParcelNumber'', parcel_number), (''LastSaleDate'', last_sale_date),
                     (''LastSalePrice'', last_sale_price),
                     (''LastSaleInstrument'', last_sale_instrument)]
       in
     ebind (py_contains ''Transfers'' taxmapkey) (\<lambda>has_transfers.
       if has_transfers
       then
         ebind (py_subscript taxmapkey ''Transfers'') (\<lambda>transfers.
         ebind (py_iter transfers) (\<lambda>ts.
         ebind (filter_transfers ts) (\<lambda>filtered_transfers.
           Inr (JObj (result @ [(''Transfers'', JList filtered_transfers)])))))
       else Inr (JObj result))))))"


subsection \<open>The client and the batch loop\<close>

text \<open>
  The remote API is a parameter: what one \<^verbatim>\<open>requests.post\<close> followed by
  \<^verbatim>\<open>raise_for_status\<close> and \<^verbatim>\<open>response.json()\<close> gives for a request body. It either
  raises a \<^verbatim>\<open>RequestException\<close> (with its text and, when the exception carries a
  response, the response's text) or returns the parsed body; a body that is no JSON is
  among the request exceptions, as \<^verbatim>\<open>requests\<close> 2.27 and later raise it. The request
  body also holds an empty \<^verbatim>\<open>search\<close> string, left out here. The world a run acts on is
  the output file of the client (\<open>None\<close> when the client was built without one and prints
  instead) and the requests sent so far.
\<close>

record request =
  req_offset :: int
  req_limit :: int
  req_query :: string

datatype api_outcome =
    RequestException string "string option"
  | Response json

record world =
  output_file :: "chunk list option"
  issued :: "request list"

record fetch_args =
  query :: string
  start_index :: int
  end_index :: int
  batch_size :: int

text \<open>\<^verbatim>\<open>APIClient.__init__\<close> with an output file: the file is truncated and opened with
  the bracket.\<close>

definition new_client :: "world" where
  "new_client = \<lparr>output_file = Some [Open], issued = []\<rparr>"

definition write_to_file :: "json \<Rightarrow> bool \<Rightarrow> world \<Rightarrow> world" where
  "write_to_file message is_last w =
     (case output_file w of
        Some f \<Rightarrow> w\<lparr>output_file := Some (f @ [Val message] @ (if \<not> is_last then [Sep] else []))\<rparr>
      | None \<Rightarrow> w)"

definition write_error :: "string \<Rightarrow> world \<Rightarrow> world" where
  "write_error error_message w =
     (case output_file w of
        Some f \<Rightarrow> w\<lparr>output_file := Some (f @ [Comment (''ERROR: '' @ error_message)])\<rparr>
      | None \<Rightarrow> w)"

definition close_array :: "world \<Rightarrow> world" where
  "close_array w =
     (case output_file w of
        Some f \<Rightarrow> w\<lparr>output_file := Some (f @ [Close])\<rparr>
      | None \<Rightarrow> w)"

text \<open>The items of a response that carry a \<^verbatim>\<open>TaxMapKey\<close>, each projected.\<close>

fun batch_items :: "json list \<Rightarrow> py_error + json list" where
  "batch_items [] = Inr []"
| "batch_items (item # rest) =
     ebind (py_contains ''TaxMapKey'' item) (\<lambda>has.
       if has
       then
         ebind (py_subscript item ''TaxMapKey'') (\<lambda>taxmapkey.
         ebind (extract_taxmapkey_fields taxmapkey) (\<lambda>taxmapkey_info.
         ebind (batch_items rest) (\<lambda>infos. Inr (taxmapkey_info # infos))))
       else batch_items rest)"

text \<open>The results of one response; a response without \<^verbatim>\<open>data\<close> has none to write.\<close>

definition response_results :: "json \<Rightarrow> py_error + json list" where
  "response_results response_data =
     ebind (py_contains ''data'' response_data) (\<lambda>has_data.
       if has_data
       then
         ebind (py_subscript response_data ''data'') (\<lambda>d.
         ebind (py_iter d) (\<lambda>items. batch_items items))
       else Inr [])"

text \<open>Writing the results of a batch: the last result of the last batch gets no separator.\<close>

fun write_batch :: "bool \<Rightarrow> json list \<Rightarrow> world \<Rightarrow> world" where
  "write_batch last_batch [] w = w"
| "write_batch last_batch (r # rs) w =
     write_batch last_batch rs (write_to_file r (last_batch \<and> rs = []) w)"

definition batch_request :: "fetch_args \<Rightarrow> nat \<Rightarrow> request" where
  "batch_request a i =
     (let offset = start_index a + int i * batch_size a;
          limit = min (batch_size a) (end_index a - offset)
      in \<lparr>req_offset = offset, req_limit = limit, req_query = query a\<rparr>)"

text \<open>One round of the loop. Only a \<^verbatim>\<open>RequestException\<close> is caught here; any other
  exception leaves the loop and \<^verbatim>\<open>fetch_results\<close> (first component \<open>Some\<close>).\<close>

definition fetch_batch ::
  "(request \<Rightarrow> api_outcome) \<Rightarrow> fetch_args \<Rightarrow> int \<Rightarrow> nat \<Rightarrow> world \<Rightarrow> py_error option \<times> world" where
  "fetch_batch api a num_requests i w =
     (let request_data = batch_request a i;
          w1 = w\<lparr>issued := issued w @ [request_data]\<rparr>
      in case api request_data of
           RequestException e resp \<Rightarrow>
             (let w2 = write_error (''Error making request at offset ''
                                     @ str_int (req_offset request_data) @ '': '' @ e) w1
              in (None, case resp of
                          None \<Rightarrow> w2
                        | Some text \<Rightarrow> write_error (''Error response: '' @ text) w2))
         | Response response_data \<Rightarrow>
             (case response_results response_data of
                Inl err \<Rightarrow> (Some err, w1)
              | Inr results \<Rightarrow> (None, write_batch (int i = num_requests - 1) results w1)))"

fun fetch_batches ::
  "(request \<Rightarrow> api_outcome) \<Rightarrow> fetch_args \<Rightarrow> int \<Rightarrow> nat list \<Rightarrow> world \<Rightarrow> py_error option \<times> world" where
  "fetch_batches api a num_requests [] w = (None, w)"
| "fetch_batches api a num_requests (i # rest) w =
     (case fetch_batch api a num_requests i w of
        (Some err, w') \<Rightarrow> (Some err, w')
      | (None, w') \<Rightarrow> fetch_batches api a num_requests rest w')"

definition num_requests_of :: "fetch_args \<Rightarrow> int" where
  "num_requests_of a = (end_index a - start_index a + batch_size a - 1) div batch_size a"

definition fetch_results ::
  "(request \<Rightarrow> api_outcome) \<Rightarrow> fetch_args \<Rightarrow> world \<Rightarrow> py_error option \<times> world" where
  "fetch_results api a w =
     (if batch_size a = 0 then (Some ZeroDivisionError, w)
      else
        let num_requests = num_requests_of a in
        case fetch_batches api a num_requests [0..<nat num_requests] w of
          (Some err, w') \<Rightarrow> (Some err, w')
        | (None, w') \<Rightarrow> (None, close_array w'))"

text \<open>\<^verbatim>\<open>main\<close>: a fresh client, the two half-year queries, and the handler of any
  exception that leaves them. \<open>msg\<close> gives the text of an exception.\<close>

definition query_first_half :: string where
  "query_first_half = ''(TaxMapKey.Transfers.Grantor.Date: from 2024-01-01T00:00:00-10:00 to 2024-06-30T23:59:59-10:00) AND (TaxMapKey.LastSaleInstrument: \"DEED\") AND (TaxMapKey.Transfers.Grantor.Price: from 200000)''"

definition query_second_half :: string where
  "query_second_half = ''(TaxMapKey.Transfers.Grantor.Date: from 2024-07-01T00:00:00-10:00 to 2024-12-31T23:59:59-10:00) AND (TaxMapKey.LastSaleInstrument: \"DEED\") AND (TaxMapKey.Transfers.Grantor.Price: from 200000)''"

definition fatal_error :: "(py_error \<Rightarrow> string) \<Rightarrow> py_error \<Rightarrow> world \<Rightarrow> world" where
  "fatal_error msg e w = close_array (write_error (''Fatal error: '' @ msg e) w)"

definition fetch_main :: "(request \<Rightarrow> api_outcome) \<Rightarrow> (py_error \<Rightarrow> string) \<Rightarrow> world" where
  "fetch_main api msg =
     (case fetch_results api
             \<lparr>query = query_first_half, start_index = 0, end_index = 7967, batch_size = 1000\<rparr>
             new_client of
        (Some e, w) \<Rightarrow> fatal_error msg e w
      | (None, w1) \<Rightarrow>
          (case fetch_results api
                  \<lparr>query = query_second_half, start_index = 0, end_index = 8512,
                    batch_size = 1000\<rparr> w1 of
             (Some e, w) \<Rightarrow> fatal_error msg e w
           | (None, w2) \<Rightarrow> w2))"


subsection \<open>Responses of the expected shape\<close>

text \<open>
  The specification expects a response of the shape \<^verbatim>\<open>{data: [{TaxMapKey: {...}}, ...]}\<close>,
  a parcel record with an ordered sequence of transfers, and under each transfer a
  \<^verbatim>\<open>Grantor\<close> sub-record. The predicates below say that much and no more: the fields of
  the sub-record may hold anything or be missing, and the parts the script asks for with
  \<^verbatim>\<open>in\<close> before it reads them (\<^verbatim>\<open>data\<close>, \<^verbatim>\<open>TaxMapKey\<close>, \<^verbatim>\<open>Transfers\<close>) may be left
  out. A remote API conforms when each of its answers is a request exception or a response
  of this shape.
\<close>

definition shaped_transfer :: "json \<Rightarrow> bool" where
  "shaped_transfer t =
     (case t of
        JObj kvs \<Rightarrow> (case map_of kvs ''Grantor'' of Some (JObj g) \<Rightarrow> True | _ \<Rightarrow> False)
      | _ \<Rightarrow> False)"

definition shaped_parcel :: "json \<Rightarrow> bool" where
  "shaped_parcel p =
     (case p of
        JObj kvs \<Rightarrow>
          (case map_of kvs ''Transfers'' of
             None \<Rightarrow> True
           | Some (JList ts) \<Rightarrow> list_all shaped_transfer ts
           | Some _ \<Rightarrow> False)
      | _ \<Rightarrow> False)"

definition shaped_item :: "json \<Rightarrow> bool" where
  "shaped_item item =
     (case item of
        JObj kvs \<Rightarrow> (case map_of kvs ''TaxMapKey'' of None \<Rightarrow> True | Some p \<Rightarrow> shaped_parcel p)
      | _ \<Rightarrow> False)"

definition shaped_response :: "json \<Rightarrow> bool" where
  "shaped_response r =
     (case r of
        JObj kvs \<Rightarrow>
          (case map_of kvs ''data'' of
             None \<Rightarrow> True
           | Some (JList items) \<Rightarrow> list_all shaped_item items
           | Some _ \<Rightarrow> False)
      | _ \<Rightarrow> False)"

definition conforming :: "api_outcome \<Rightarrow> bool" where
  "conforming out = (case out of RequestException e resp \<Rightarrow> True | Response r \<Rightarrow> shaped_response r)"


section \<open>\<^verbatim>\<open>process_housing_data.py\<close>: the enrichment step\<close>

subsection \<open>Record keys\<close>

text \<open>
  A record key is the tuple of parcel number, date, price and document link. The tuple is
  used as a dictionary key, so it must be hashable (a list or a dict inside it raises
  \<^verbatim>\<open>TypeError\<close> at the lookup), and keys are compared with \<^verbatim>\<open>==\<close>, under which a
  bool is the integer 0 or 1. \<open>hash_key\<close> gives the key as the dictionary sees it.
\<close>

type_synonym record_key = "json \<times> json \<times> json \<times> json"

definition hashable :: "json \<Rightarrow> bool" where
  "hashable x = (case x of JList _ \<Rightarrow> False | JObj _ \<Rightarrow> False | _ \<Rightarrow> True)"

definition key_part :: "json \<Rightarrow> json" where
  "key_part x = (case x of JBool b \<Rightarrow> JInt (if b then 1 else 0) | _ \<Rightarrow> x)"

definition hash_key :: "record_key \<Rightarrow> py_error + record_key" where
  "hash_key k =
     (case k of (p, d, pr, l) \<Rightarrow>
        if hashable p \<and> hashable d \<and> hashable pr \<and> hashable l
        then Inr (key_part p, key_part d, key_part pr, key_part l)
        else Inl TypeError)"

text \<open>The key of a record of the output file, and the loop that loads the records into
  \<^verbatim>\<open>existing_transfers\<close>.\<close>

definition item_key :: "json \<Rightarrow> py_error + record_key" where
  "item_key item =
     ebind (dict_get item ''ParcelNumber'') (\<lambda>p.
     ebind (dict_get item ''Date'') (\<lambda>d.
     ebind (dict_get item ''Price'') (\<lambda>pr.
     ebind (dict_get item ''BureauOfConveyancesLink'') (\<lambda>l.
       hash_key (p, d, pr, l)))))"

fun load_existing ::
  "json list \<Rightarrow> (record_key \<times> json) list \<Rightarrow> py_error + (record_key \<times> json) list" where
  "load_existing [] existing = Inr existing"
| "load_existing (item # rest) existing =
     ebind (item_key item) (\<lambda>transfer_key.
       load_existing rest (AList.update transfer_key item existing))"

subsection \<open>The loop over the input\<close>

text \<open>\<^verbatim>\<open>convert_to_tmk_format\<close> as the loop calls it, on whatever the input holds under
  \<^verbatim>\<open>ParcelNumber\<close>: \<^verbatim>\<open>len\<close> comes first, and \<^verbatim>\<open>isdigit\<close> is only asked of a value
  of length 13.\<close>

definition tmk_of :: "json \<Rightarrow> py_error + json" where
  "tmk_of parcel_number =
     ebind (py_len parcel_number) (\<lambda>n.
       if n \<noteq> 13 then Inr parcel_number
       else
         (case parcel_number of
            JStr s \<Rightarrow> ebind (convert_to_tmk_format s) (\<lambda>tmk. Inr (JStr tmk))
          | _ \<Rightarrow> Inl AttributeError))"

text \<open>
  The state of a run: the output file, \<^verbatim>\<open>new_transfers\<close>, \<^verbatim>\<open>first_item\<close>, and the
  document links handed to the tax extractor so far. The extractor is a parameter; what
  it raises is caught and recorded as \<^verbatim>\<open>ERROR\<close>.
\<close>

record pstate =
  out_chunks :: "chunk list"
  new_transfers :: "(record_key \<times> json) list"
  first_item :: bool
  extracted :: "json list"

definition transfer_record :: "json \<Rightarrow> json \<Rightarrow> json \<Rightarrow> json \<Rightarrow> json \<Rightarrow> string \<Rightarrow> json" where
  "transfer_record parcel_number tmk date price pdf_url conveyance_tax =
     JObj [(''ParcelNumber'', parcel_number), (''TMK'', tmk), (''Date'', date),
           (''Price'', price), (''BureauOfConveyancesLink'', pdf_url),
           (''ConveyanceTax'', JStr conveyance_tax)]"

definition process_transfer ::
  "(json \<Rightarrow> py_error + string) \<Rightarrow> (record_key \<times> json) list \<Rightarrow> json \<Rightarrow> json \<Rightarrow> json \<Rightarrow> pstate
     \<Rightarrow> py_error + pstate" where
  "process_transfer extract_conveyance_tax existing_transfers parcel_number tmk transfer st =
     ebind (dict_get_default transfer ''Grantor'' (JObj [])) (\<lambda>grantor.
     ebind (dict_get grantor ''Date'') (\<lambda>date.
     ebind (dict_get grantor ''Price'') (\<lambda>price.
     ebind (dict_get grantor ''BureauOfConveyancesLink'') (\<lambda>pdf_url.
     ebind (hash_key (parcel_number, date, price, pdf_url)) (\<lambda>transfer_key.
       if map_of existing_transfers transfer_key \<noteq> None then Inr st
       else if map_of (new_transfers st) transfer_key = None
       then
         (let conveyance_tax =
                (if truthy pdf_url
                 then (case extract_conveyance_tax pdf_url of
                         Inr tax \<Rightarrow> tax
                       | Inl _ \<Rightarrow> ''ERROR'')
                 else ''ERROR'');
              transfer_data =
                transfer_record parcel_number tmk date price pdf_url conveyance_tax
          in Inr \<lparr>out_chunks = out_chunks st @ (if \<not> first_item st then [Sep] else [])
                                   @ [Val transfer_data],
                   new_transfers = AList.update transfer_key transfer_data (new_transfers st),
                   first_item = False,
                   extracted = extracted st @ (if truthy pdf_url then [pdf_url] else [])\<rparr>)
       else Inr st)))))"

fun process_transfers ::
  "(json \<Rightarrow> py_error + string) \<Rightarrow> (record_key \<times> json) list \<Rightarrow> json \<Rightarrow> json \<Rightarrow> json list
     \<Rightarrow> pstate \<Rightarrow> py_error option \<times> pstate" where
  "process_transfers ex existing parcel_number tmk [] st = (None, st)"
| "process_transfers ex existing parcel_number tmk (transfer # rest) st =
     (case process_transfer ex existing parcel_number tmk transfer st of
        Inl e \<Rightarrow> (Some e, st)
      | Inr st' \<Rightarrow> process_transfers ex existing parcel_number tmk rest st')"

definition process_taxmapkey ::
  "(json \<Rightarrow> py_error + string) \<Rightarrow> (record_key \<times> json) list \<Rightarrow> json \<Rightarrow> pstate
     \<Rightarrow> py_error option \<times> pstate" where
  "process_taxmapkey ex existing taxmapkey st =
     (case ebind (dict_get taxmapkey ''ParcelNumber'') (\<lambda>parcel_number.
           ebind (tmk_of parcel_number) (\<lambda>tmk.
           ebind (dict_get_default taxmapkey ''Transfers'' (JList [])) (\<lambda>transfers.
           ebind (py_iter transfers) (\<lambda>ts. Inr (parcel_number, tmk, ts))))) of
        Inl e \<Rightarrow> (Some e, st)
      | Inr (parcel_number, tmk, ts) \<Rightarrow> process_transfers ex existing parcel_number tmk ts st)"

fun process_items ::
  "(json \<Rightarrow> py_error + string) \<Rightarrow> (record_key \<times> json) list \<Rightarrow> json list \<Rightarrow> pstate
     \<Rightarrow> py_error option \<times> pstate" where
  "process_items ex existing [] st = (None, st)"
| "process_items ex existing (taxmapkey # rest) st =
     (case process_taxmapkey ex existing taxmapkey st of
        (Some e, st') \<Rightarrow> (Some e, st')
      | (None, st') \<Rightarrow> process_items ex existing rest st')"

subsection \<open>A run\<close>

text \<open>
  The output file before a run is absent (\<open>None\<close>) or holds some pieces. The input file is
  absent, is no JSON, or parses to a value. A run ends normally, with the input refused as
  no JSON (nothing more is written), or in the handler of any other exception, which
  writes the closing bracket.
\<close>

datatype input_file = InputMissing | InputInvalid | InputData json

datatype run_status = Completed | InputDecodeError | Failed py_error

record run_result =
  result_file :: "chunk list"
  run_status :: run_status
  extractor_calls :: "json list"

text \<open>The part of a run after the output file was read: \<open>existing\<close> are the loaded
  records and \<open>file\<close> is the output file as the loading left it.\<close>

definition process_input ::
  "(json \<Rightarrow> py_error + string) \<Rightarrow> input_file \<Rightarrow> (record_key \<times> json) list \<Rightarrow> chunk list
     \<Rightarrow> run_result" where
  "process_input ex input existing file =
     (case input of
        InputMissing \<Rightarrow>
          \<lparr>result_file = file @ [Close], run_status = Failed FileNotFoundError,
            extractor_calls = []\<rparr>
      | InputInvalid \<Rightarrow>
          \<lparr>result_file = file, run_status = InputDecodeError, extractor_calls = []\<rparr>
      | InputData d \<Rightarrow>
          (case py_iter d of
             Inl e \<Rightarrow>
               \<lparr>result_file = file @ [Close], run_status = Failed e, extractor_calls = []\<rparr>
           | Inr taxmapkeys \<Rightarrow>
               (case process_items ex existing taxmapkeys
                       \<lparr>out_chunks = file, new_transfers = [], first_item = (existing = []),
                         extracted = []\<rparr> of
                  (Some e, st) \<Rightarrow>
                    \<lparr>result_file = out_chunks st @ [Close], run_status = Failed e,
                      extractor_calls = extracted st\<rparr>
                | (None, st) \<Rightarrow>
                    \<lparr>result_file = out_chunks st @ [Close], run_status = Completed,
                      extractor_calls = extracted st\<rparr>)))"

definition process_housing_data ::
  "(json \<Rightarrow> py_error + string) \<Rightarrow> input_file \<Rightarrow> chunk list option \<Rightarrow> run_result" where
  "process_housing_data ex input output =
     (case (case output of None \<Rightarrow> None | Some cs \<Rightarrow> map_option (Pair cs) (json_load cs)) of
        None \<Rightarrow> process_input ex input [] [Open]
      | Some (cs, existing_data) \<Rightarrow>
          (case load_existing existing_data [] of
             Inl e \<Rightarrow>
               \<lparr>result_file = cs @ [Close], run_status = Failed e, extractor_calls = []\<rparr>
           | Inr existing \<Rightarrow> process_input ex input existing cs))"

text \<open>Any number of runs against the same output file, each with its own extractor and
  input.\<close>

fun run_many ::
  "((json \<Rightarrow> py_error + string) \<times> input_file) list \<Rightarrow> chunk list option \<Rightarrow> chunk list option" where
  "run_many [] output = output"
| "run_many (r # rs) output =
     run_many rs (Some (result_file (process_housing_data (fst r) (snd r) output)))"

text \<open>The keys of the records a file holds.\<close>

fun file_keys :: "chunk list \<Rightarrow> record_key list" where
  "file_keys [] = []"
| "file_keys (Val v # cs) =
     (case item_key v of Inr k \<Rightarrow> k # file_keys cs | Inl _ \<Rightarrow> file_keys cs)"
| "file_keys (c # cs) = file_keys cs"

fun file_records :: "chunk list \<Rightarrow> json list" where
  "file_records [] = []"
| "file_records (Val v # cs) = v # file_records cs"
| "file_records (c # cs) = file_records cs"

text \<open>The keys of the transfers an input holds, read as the loop reads them; a transfer
  or parcel the loop could not read has none.\<close>

definition transfer_key_of :: "json \<Rightarrow> json \<Rightarrow> py_error + record_key" where
  "transfer_key_of parcel_number transfer =
     ebind (dict_get_default transfer ''Grantor'' (JObj [])) (\<lambda>grantor.
     ebind (dict_get grantor ''Date'') (\<lambda>date.
     ebind (dict_get grantor ''Price'') (\<lambda>price.
     ebind (dict_get grantor ''BureauOfConveyancesLink'') (\<lambda>pdf_url.
       hash_key (parcel_number, date, price, pdf_url)))))"

definition keys_of_transfers :: "json \<Rightarrow> json list \<Rightarrow> record_key list" where
  "keys_of_transfers parcel_number ts =
     concat (map (\<lambda>t. case transfer_key_of parcel_number t of Inr k \<Rightarrow> [k] | Inl _ \<Rightarrow> []) ts)"

definition taxmapkey_keys :: "json \<Rightarrow> record_key list" where
  "taxmapkey_keys taxmapkey =
     (case ebind (dict_get taxmapkey ''ParcelNumber'') (\<lambda>parcel_number.
           ebind (dict_get_default taxmapkey ''Transfers'' (JList [])) (\<lambda>transfers.
           ebind (py_iter transfers) (\<lambda>ts. Inr (parcel_number, ts)))) of
        Inr (parcel_number, ts) \<Rightarrow> keys_of_transfers parcel_number ts
      | Inl _ \<Rightarrow> [])"

definition input_keys :: "json \<Rightarrow> record_key list" where
  "input_keys d =
     (case py_iter d of Inr taxmapkeys \<Rightarrow> concat (map taxmapkey_keys taxmapkeys) | Inl _ \<Rightarrow> [])"

text \<open>At most one record for each key, in a file that exists.\<close>

definition keys_unique :: "chunk list option \<Rightarrow> bool" where
  "keys_unique output = (case output of None \<Rightarrow> True | Some cs \<Rightarrow> distinct (file_keys cs))"

text \<open>Two invariants of the loop. The first holds whatever happens: the keys of the
  file are distinct and each is a loaded key or one written in this run. The second
  describes a run that has so far read the transfers with keys \<open>K\<close>: the file is the
  file the run started from and one record for each entry of \<^verbatim>\<open>new_transfers\<close>, whose
  keys are those of \<open>K\<close> that were not loaded.\<close>

definition loop_inv :: "record_key set \<Rightarrow> pstate \<Rightarrow> bool" where
  "loop_inv E st =
     (distinct (file_keys (out_chunks st))
      \<and> set (file_keys (out_chunks st)) \<subseteq> E \<union> fst ` set (new_transfers st))"

definition appended :: "chunk list \<Rightarrow> record_key set \<Rightarrow> record_key set \<Rightarrow> pstate \<Rightarrow> bool" where
  "appended file E K st =
     ((\<exists>app. out_chunks st = file @ app
          \<and> length (file_records app) = length (new_transfers st))
      \<and> distinct (map fst (new_transfers st))
      \<and> fst ` set (new_transfers st) = K - E)"

text \<open>An input of two parcels to run the step on, and an extractor that finds a tax.\<close>

definition sale :: "string \<Rightarrow> int \<Rightarrow> json \<Rightarrow> json" where
  "sale date price link =
     JObj [(''Grantor'', JObj [(''Date'', JStr date), (''Price'', JInt price),
                               (''InstrumentType'', JStr ''DEED''),
                               (''BureauOfConveyancesLink'', link)])]"

definition parcel :: "string \<Rightarrow> json list \<Rightarrow> json" where
  "parcel pn transfers = JObj [(''ParcelNumber'', JStr pn), (''Transfers'', JList transfers)]"

definition extractor_12 :: "json \<Rightarrow> py_error + string" where
  "extractor_12 url = Inr ''12.50''"

section \<open>\<^verbatim>\<open>convert_to_csv.py\<close>\<close>

subsection \<open>\<^verbatim>\<open>float\<close> of a string\<close>

text \<open>
  \<^verbatim>\<open>float(s)\<close> is only asked whether it accepts the string. CPython first checks the
  underscores (one at a time, between two digits), strips white space at both ends, and
  then wants the whole rest to be a decimal number with an optional sign, fraction and
  exponent, or \<^verbatim>\<open>inf\<close>, \<^verbatim>\<open>infinity\<close> or \<^verbatim>\<open>nan\<close> in any case with an optional sign.
  Below code point 256 the white space it strips is tab to carriage return, the space,
  U+0085 and U+00A0.
\<close>

definition float_space :: "char \<Rightarrow> bool" where
  "float_space c =
     ((9 \<le> (of_char c :: int) \<and> (of_char c :: int) \<le> 13) \<or> (of_char c :: int) = 32
        \<or> (of_char c :: int) = 133 \<or> (of_char c :: int) = 160)"

fun strip_underscores :: "char \<Rightarrow> string \<Rightarrow> string option" where
  "strip_underscores prev [] = (if prev = CHR ''_'' then None else Some [])"
| "strip_underscores prev (c # cs) =
     (if c = CHR ''_''
      then (if is_decimal prev then strip_underscores c cs else None)
      else if prev = CHR ''_'' \<and> \<not> is_decimal c then None
      else map_option ((#) c) (strip_underscores c cs))"

definition strip_space :: "string \<Rightarrow> string" where
  "strip_space s = rev (dropWhile float_space (rev (dropWhile float_space s)))"

definition is_sign :: "char \<Rightarrow> bool" where
  "is_sign c = (c = CHR ''+'' \<or> c = CHR ''-'')"

definition drop_sign :: "string \<Rightarrow> string" where
  "drop_sign s = (case s of c # cs \<Rightarrow> (if is_sign c then cs else s) | [] \<Rightarrow> [])"

definition lower :: "char \<Rightarrow> char" where
  "lower c =
     (if 65 \<le> (of_char c :: int) \<and> (of_char c :: int) \<le> 90
      then char_of ((of_char c :: int) + 32) else c)"

text \<open>An exponent, or nothing: \<^verbatim>\<open>e\<close>, an optional sign, digits.\<close>

definition exponent_or_end :: "string \<Rightarrow> bool" where
  "exponent_or_end s =
     (case s of
        [] \<Rightarrow> True
      | c # cs \<Rightarrow>
          (c = CHR ''e'' \<or> c = CHR ''E'') \<and> drop_sign cs \<noteq> [] \<and> list_all is_decimal (drop_sign cs))"

definition decimal_number :: "string \<Rightarrow> bool" where
  "decimal_number s =
     (let int_part = takeWhile is_decimal s;
          r = dropWhile is_decimal s
      in case r of
           c # cs \<Rightarrow>
             (if c = CHR ''.''
              then (int_part \<noteq> [] \<or> takeWhile is_decimal cs \<noteq> [])
                     \<and> exponent_or_end (dropWhile is_decimal cs)
              else int_part \<noteq> [] \<and> exponent_or_end r)
         | [] \<Rightarrow> int_part \<noteq> [])"

definition inf_or_nan :: "string \<Rightarrow> bool" where
  "inf_or_nan s = (map lower s = ''inf'' \<or> map lower s = ''infinity'' \<or> map lower s = ''nan'')"

definition float_accepts :: "string \<Rightarrow> bool" where
  "float_accepts s =
     (case strip_underscores (CHR 0x00) s of
        None \<Rightarrow> False
      | Some t \<Rightarrow>
          (let u = drop_sign (strip_space t) in decimal_number u \<or> inf_or_nan u))"

text \<open>\<^verbatim>\<open>float(x)\<close> and \<^verbatim>\<open>x.replace(',', '')\<close> on a parsed value.\<close>

definition py_float_check :: "string \<Rightarrow> py_error + unit" where
  "py_float_check s = (if float_accepts s then Inr () else Inl ValueError)"

definition replace_commas :: "json \<Rightarrow> py_error + string" where
  "replace_commas x =
     (case x of JStr s \<Rightarrow> Inr (filter (\<lambda>c. c \<noteq> CHR '','') s) | _ \<Rightarrow> Inl AttributeError)"

subsection \<open>The rows\<close>

text \<open>A row is the list of the values handed to \<^verbatim>\<open>writer.writerow\<close>.\<close>

definition clean_conveyance_tax :: "json \<Rightarrow> py_error + json" where
  "clean_conveyance_tax conveyance_tax =
     (if conveyance_tax \<notin> set [JStr ''ERROR'', JStr ''Not found'']
      then
        (case ebind (replace_commas conveyance_tax) (\<lambda>s.
              ebind (py_float_check s) (\<lambda>_. Inr (JStr s))) of
           Inl ValueError \<Rightarrow> Inr (JStr ''ERROR'')
         | Inl AttributeError \<Rightarrow> Inr (JStr ''ERROR'')
         | Inl e \<Rightarrow> Inl e
         | Inr v \<Rightarrow> Inr v)
      else Inr (JStr ''ERROR''))"

definition csv_row :: "json \<Rightarrow> py_error + json list" where
  "csv_row item =
     ebind (dict_get_default item ''ConveyanceTax'' (JStr [])) (\<lambda>tax.
     ebind (clean_conveyance_tax tax) (\<lambda>conveyance_tax.
     ebind (dict_get_default item ''ParcelNumber'' (JStr [])) (\<lambda>parcel_number.
     ebind (dict_get_default item ''Date'' (JStr [])) (\<lambda>date.
     ebind (dict_get_default item ''Price'' (JStr [])) (\<lambda>price.
       Inr [parcel_number, date, price, conveyance_tax])))))"

text \<open>The loop over the records: the rows written, and the exception that ended it if
  one did.\<close>

fun csv_rows :: "json list \<Rightarrow> json list list \<Rightarrow> py_error option \<times> json list list" where
  "csv_rows [] rows = (None, rows)"
| "csv_rows (item # rest) rows =
     (case csv_row item of
        Inl e \<Rightarrow> (Some e, rows)
      | Inr row \<Rightarrow> csv_rows rest (rows @ [row]))"

definition csv_header :: "json list" where
  "csv_header = [JStr ''ParcelNumber'', JStr ''Date'', JStr ''Price'', JStr ''ConveyanceTax'']"

text \<open>The table \<^verbatim>\<open>convert_to_csv\<close> leaves (\<open>None\<close> when it did not get to open the
  output file) and how it ended.\<close>

definition convert_to_csv :: "input_file \<Rightarrow> json list list option \<times> run_status" where
  "convert_to_csv input =
     (case input of
        InputMissing \<Rightarrow> (None, Failed FileNotFoundError)
      | InputInvalid \<Rightarrow> (None, InputDecodeError)
      | InputData d \<Rightarrow>
          (case py_iter d of
             Inl e \<Rightarrow> (Some [csv_header], Failed e)
           | Inr items \<Rightarrow>
               (case csv_rows items [csv_header] of
                  (Some e, rows) \<Rightarrow> (Some rows, Failed e)
                | (None, rows) \<Rightarrow> (Some rows, Completed))))"

text \<open>A numeric tax value, in the specification's sense: a string that, its commas
  removed, is a number to \<^verbatim>\<open>float\<close>.\<close>

definition numeric_tax :: "json \<Rightarrow> bool" where
  "numeric_tax v =
     (case v of JStr s \<Rightarrow> float_accepts (filter (\<lambda>c. c \<noteq> CHR '','') s) | _ \<Rightarrow> False)"

text \<open>The row of the flattened export as the specification describes it: the four columns
  of the record, an absent one empty, with the tax written without commas when it is
  numeric and as \<^verbatim>\<open>ERROR\<close> when it is not.\<close>

definition field_or_empty :: "json \<Rightarrow> string \<Rightarrow> json" where
  "field_or_empty item k =
     (case item of
        JObj kvs \<Rightarrow> (case map_of kvs k of None \<Rightarrow> JStr [] | Some v \<Rightarrow> v)
      | _ \<Rightarrow> JStr [])"

definition flat_tax :: "json \<Rightarrow> json" where
  "flat_tax tax =
     (case tax of
        JStr s \<Rightarrow> (if numeric_tax tax then JStr (filter (\<lambda>c. c \<noteq> CHR '','') s) else JStr ''ERROR'')
      | _ \<Rightarrow> JStr ''ERROR'')"

definition flat_row :: "json \<Rightarrow> json list" where
  "flat_row item =
     [field_or_empty item ''ParcelNumber'', field_or_empty item ''Date'',
      field_or_empty item ''Price'', flat_tax (field_or_empty item ''ConveyanceTax'')]"

definition is_dict :: "json \<Rightarrow> bool" where
  "is_dict x = (case x of JObj _ \<Rightarrow> True | _ \<Rightarrow> False)"

definition tax_record :: "json \<Rightarrow> json" where
  "tax_record tax =
     JObj [(''ParcelNumber'', JStr ''1230010020000''), (''TMK'', JStr ''1-2-3-1-2''),
           (''Date'', JStr ''2024-06-15T00:00:00-10:00''), (''Price'', JInt 250000),
           (''BureauOfConveyancesLink'', JStr ''https://boc.example/a.pdf''),
           (''ConveyanceTax'', tax)]"

subsection \<open>The selection predicate as the specification words it\<close>

















subsection \<open>The selection predicate with the date read by the format of the script\<close>




section \<open>Data for the examples\<close>

text \<open>Transfers to try the predicate on: a deed of 250000 with a link, dated as given.\<close>

definition deed_transfer :: "string \<Rightarrow> json" where
  "deed_transfer date =
     JObj [(''Grantor'',
            JObj [(''Date'', JStr date), (''Price'', JInt 250000),
                  (''InstrumentType'', JStr ''DEED''),
                  (''BureauOfConveyancesLink'', JStr ''https://boc.example/doc.pdf'')])]"


definition rec_A :: json where
  "rec_A = transfer_record (JStr ''1230010020000'') (JStr ''1-2-3-1-2'')
             (JStr ''2024-06-15T00:00:00-10:00'') (JInt 250000) (JStr ''https://boc.example/a.pdf'')
             ''12.50''"

definition rec_B :: json where
  "rec_B = transfer_record (JStr ''1230010020000'') (JStr ''1-2-3-1-2'')
             (JStr ''2024-07-01T00:00:00-10:00'') (JInt 300000) JNull ''ERROR''"

definition rec_C :: json where
  "rec_C = transfer_record (JStr ''1230010020000'') (JStr ''1-2-3-1-2'')
             (JStr ''2024-08-20T00:00:00-10:00'') (JInt 400000) (JStr ''https://boc.example/c.pdf'')
             ''12.50''"

text \<open>A first input with one transfer twice and one without a link, and a second input
  with the same two transfers and a new one.\<close>

definition data_1 :: json where
  "data_1 = JList [parcel ''1230010020000''
     [sale ''2024-06-15T00:00:00-10:00'' 250000 (JStr ''https://boc.example/a.pdf''),
      sale ''2024-07-01T00:00:00-10:00'' 300000 JNull,
      sale ''2024-06-15T00:00:00-10:00'' 250000 (JStr ''https://boc.example/a.pdf'')]]"

definition data_2 :: json where
  "data_2 = JList [parcel ''1230010020000''
     [sale ''2024-06-15T00:00:00-10:00'' 250000 (JStr ''https://boc.example/a.pdf''),
      sale ''2024-07-01T00:00:00-10:00'' 300000 JNull,
      sale ''2024-08-20T00:00:00-10:00'' 400000 (JStr ''https://boc.example/c.pdf'')]]"

definition file_1 :: "chunk list" where
  "file_1 = [Open, Val rec_A, Sep, Val rec_B, Close]"

text \<open>The file after a second run, a third input with one more transfer, an extractor that
  finds no tax, and the records it makes.\<close>

definition file_2 :: "chunk list" where
  "file_2 = [Open, Val rec_A, Sep, Val rec_B, Close, Sep, Val rec_C, Close]"

definition data_3 :: json where
  "data_3 = JList [parcel ''1230010020000''
     [sale ''2024-06-15T00:00:00-10:00'' 250000 (JStr ''https://boc.example/a.pdf''),
      sale ''2024-07-01T00:00:00-10:00'' 300000 JNull,
      sale ''2024-08-20T00:00:00-10:00'' 400000 (JStr ''https://boc.example/c.pdf''),
      sale ''2024-09-09T00:00:00-10:00'' 500000 (JStr ''https://boc.example/d.pdf'')]]"

definition extractor_not_found :: "json \<Rightarrow> py_error + string" where
  "extractor_not_found url = Inr ''Not found''"

definition not_found_record :: "string \<Rightarrow> int \<Rightarrow> string \<Rightarrow> json" where
  "not_found_record date price url =
     transfer_record (JStr ''1230010020000'') (JStr ''1-2-3-1-2'') (JStr date) (JInt price)
       (JStr url) ''Not found''"

definition file_3 :: "chunk list" where
  "file_3 =
     [Open, Val (not_found_record ''2024-06-15T00:00:00-10:00'' 250000 ''https://boc.example/a.pdf''),
      Sep, Val rec_B,
      Sep, Val (not_found_record ''2024-08-20T00:00:00-10:00'' 400000 ''https://boc.example/c.pdf''),
      Sep, Val (not_found_record ''2024-09-09T00:00:00-10:00'' 500000 ''https://boc.example/d.pdf''),
      Close]"

text \<open>A transfer that the selection predicate would refuse on every count and that has no
  document link at all.\<close>

definition mortgage_without_link :: json where
  "mortgage_without_link =
     JObj [(''Grantor'', JObj [(''Date'', JStr ''2019-03-02T00:00:00-10:00''),
                  (''Price'', JInt 100), (''InstrumentType'', JStr ''MORTGAGE'')])]"

text \<open>A remote API with no results, and a text for every exception.\<close>

definition api_empty :: "request \<Rightarrow> api_outcome" where
  "api_empty r = Response (JObj [(''data'', JList [])])"

definition msg_0 :: "py_error \<Rightarrow> string" where
  "msg_0 e = ''error''"

text \<open>Three batches, and three remote APIs to run them against: one whose every response
  holds a transfer without a \<^verbatim>\<open>Grantor\<close>, one that fails at offset 1000 and otherwise
  returns one parcel, numbered by the offset, and one that returns a parcel with two
  transfers.\<close>

definition args_2500 :: fetch_args where
  "args_2500 = \<lparr>query = ''q'', start_index = 0, end_index = 2500, batch_size = 1000\<rparr>"

definition api_no_grantor :: "request \<Rightarrow> api_outcome" where
  "api_no_grantor r =
     Response (JObj [(''data'',
       JList [JObj [(''TaxMapKey'', JObj [(''Transfers'', JList [JObj []])])]])])"

definition api_fail_1000 :: "request \<Rightarrow> api_outcome" where
  "api_fail_1000 r =
     (if req_offset r = 1000 then RequestException ''timeout'' None
      else Response (JObj [(''data'',
             JList [JObj [(''TaxMapKey'', JObj [(''ParcelNumber'', JInt (req_offset r))])]])]))"

definition api_deeds :: "request \<Rightarrow> api_outcome" where
  "api_deeds r =
     Response (JObj [(''data'',
       JList [JObj [(''TaxMapKey'',
                     parcel ''1230010020000''
                       [deed_transfer ''2024-06-15T00:00:00-10:00'',
                        deed_transfer ''2023-12-31T23:59:59-10:00''])]])])"

definition parcel_record :: "int \<Rightarrow> json" where
  "parcel_record n =
     JObj [(''ParcelNumber'', JInt n), (''LastSaleDate'', JNull), (''LastSalePrice'', JNull),
           (''LastSaleInstrument'', JNull)]"

text \<open>A parcel number of thirteen digit characters whose second is the superscript two
  (U+00B2).\<close>

definition superscript_parcel :: string where
  "superscript_parcel =
     ''1'' @ [CHR 0xB2] @ ''34567890123''"

section \<open>Properties\<close>

lemma ebind_Inr [simp]: "ebind (Inr x) f = f x"
  by (simp add: ebind_def)

lemma ebind_Inl [simp]: "ebind (Inl e) f = Inl e"
  by (simp add: ebind_def)


subsection \<open>The TMK formatter\<close>

lemma tmk_pass_through:
  "length s \<noteq> 13 \<or> \<not> isdigit s \<Longrightarrow> convert_to_tmk_format s = Inr s"
  by (auto simp: convert_to_tmk_format_def)

lemma py_int_decimal:
  "s \<noteq> [] \<Longrightarrow> list_all is_decimal s \<Longrightarrow>
     py_int s = Inr (foldl (\<lambda>a c. 10 * a + digit_val c) 0 s)"
  by (simp add: py_int_def)

lemma list_all_slice: "list_all P s \<Longrightarrow> list_all P (slice a b s)"
  unfolding slice_def list_all_iff
  by (meson in_set_dropD in_set_takeD)

lemma slice_nonempty: "a < b \<Longrightarrow> b \<le> length s \<Longrightarrow> slice a b s \<noteq> []"
  by (simp add: slice_def)

text \<open>On thirteen decimal digits the formatter returns the hyphenated form the
  specification describes.\<close>

lemma tmk_decimal_digits:
  assumes "length s = 13" and "list_all is_decimal s"
  shows "convert_to_tmk_format s =
     Inr (let num = (\<lambda>a b. foldl (\<lambda>a c. 10 * a + digit_val c) 0 (slice a b s));
              tmk = slice 0 1 s @ ''-'' @ str_int (num 1 2) @ ''-'' @ str_int (num 2 3) @ ''-''
                      @ str_int (num 3 6) @ ''-'' @ str_int (num 6 9)
          in if num 9 13 \<noteq> 0 then tmk @ ''-'' @ str_int (num 9 13) else tmk)"
proof -
  have d: "isdigit s"
    using assms by (auto simp: isdigit_def isdigit_char_def list_all_iff)
  have i: "py_int (slice a b s) = Inr (foldl (\<lambda>a c. 10 * a + digit_val c) 0 (slice a b s))"
    if "a < b" "b \<le> 13" for a b
    using that assms by (intro py_int_decimal slice_nonempty list_all_slice) simp_all
  show ?thesis
    using assms(1) d by (simp add: convert_to_tmk_format_def i Let_def)
qed

text \<open>
  C7. The TMK formatter is to return its input unchanged unless it is thirteen digits,
  and the hyphenated form otherwise, with no failure mode. The guard uses
  \<^verbatim>\<open>str.isdigit\<close>, which also admits the superscript digits that \<^verbatim>\<open>int\<close> refuses: on
  thirteen digit characters with a superscript two in second place the formatter raises
  \<^verbatim>\<open>ValueError\<close>.
\<close>

theorem convert_to_tmk_format_raises:
  "length superscript_parcel = 13 \<and> isdigit superscript_parcel
     \<and> convert_to_tmk_format superscript_parcel = Inl ValueError"
  by code_simp

theorem convert_to_tmk_format_raises_witness:
  "convert_to_tmk_format superscript_parcel \<noteq> Inr superscript_parcel"
  using convert_to_tmk_format_raises by simp

subsection \<open>The transfer filter of the fetch path\<close>

lemma all_in_obj:
  "all_in [a, b, c, d] (JObj g) =
     Inr (map_of g a \<noteq> None \<and> map_of g b \<noteq> None \<and> map_of g c \<noteq> None \<and> map_of g d \<noteq> None)"
  by (simp add: py_contains_def)

lemma transfer_criteria_obj:
  assumes "map_of kvs ''Grantor'' = Some (JObj g)"
    and "map_of g ''Date'' = Some d" and "map_of g ''Price'' = Some p"
    and "map_of g ''InstrumentType'' = Some it" and "map_of g ''BureauOfConveyancesLink'' = Some l"
  shows "transfer_criteria (JObj kvs) =
     ebind (py_strptime d) (\<lambda>dt.
       if dt_year dt \<noteq> 2024 then Inr False
       else ebind (py_ge p 200000) (\<lambda>enough.
         if \<not> enough then Inr False
         else if it \<noteq> JStr ''DEED'' then Inr False else Inr (truthy l)))"
  using assms by (simp add: transfer_criteria_def py_subscript_def cong: if_cong)

lemma only_value_error_ebind:
  "only_value_error m \<Longrightarrow> (\<And>x. only_value_error (f x)) \<Longrightarrow> only_value_error (ebind m f)"
  by (cases m) (simp_all add: only_value_error_def)

lemma only_value_error_py_int: "only_value_error (py_int s)"
  by (simp add: only_value_error_def py_int_def)

lemma only_value_error_simps:
  "only_value_error (Inr x)" "only_value_error (Inl ValueError)"
  by (simp_all add: only_value_error_def)

lemma only_value_error_if:
  "only_value_error a \<Longrightarrow> only_value_error b \<Longrightarrow> only_value_error (if c then a else b)"
  by simp

lemma only_value_error_tz_offset: "only_value_error (tz_offset z)"
  unfolding tz_offset_def Let_def
  by (intro only_value_error_if only_value_error_ebind only_value_error_py_int
      only_value_error_simps)

lemma only_value_error_strptime: "only_value_error (strptime s)"
proof (cases "strptime_groups s")
  case None
  then show ?thesis by (simp add: strptime_def only_value_error_simps)
next
  case (Some gs)
  obtain gY gm gd gH gM gS gz where "gs = (gY, gm, gd, gH, gM, gS, gz)"
    by (cases gs) auto
  then show ?thesis using Some
    unfolding strptime_def
    by (auto intro!: only_value_error_if only_value_error_ebind only_value_error_py_int
      only_value_error_simps only_value_error_tz_offset)
qed

lemma py_strptime_cases:
  "py_strptime d = Inl TypeError \<or> py_strptime d = Inl ValueError \<or> (\<exists>dt. py_strptime d = Inr dt)"
proof (cases d)
  case (JStr s)
  then show ?thesis using only_value_error_strptime[of s]
    by (cases "strptime s") (simp_all add: py_strptime_def only_value_error_def)
qed (simp_all add: py_strptime_def)



lemma all_in_error: "ks \<noteq> [] \<Longrightarrow> x = JNull \<or> (\<exists>b. x = JBool b) \<or> (\<exists>i. x = JInt i) \<Longrightarrow> all_in ks x = Inl TypeError"
  by (cases ks) (auto simp: py_contains_def)










































lemma filter_transfers_raises:
  "filter_transfers pre = Inr kept \<Longrightarrow> keep_transfer t = Inl e \<Longrightarrow>
     filter_transfers (pre @ t # post) = Inl e"
proof (induction pre arbitrary: kept)
  case Nil
  then show ?case by simp
next
  case (Cons a pre)
  then show ?case
    by (cases "keep_transfer a"; cases "filter_transfers pre") simp_all
qed

text \<open>
  C10. Only the four Grantor fields are guarded by a presence check: a transfer whose
  Grantor lacks one of them is skipped, while a transfer with no Grantor key at all makes
  the lookup raise \<^verbatim>\<open>KeyError\<close>, which leaves the filter and the projection of the item.
\<close>

theorem grantor_lookup_unguarded:
  "(map_of kvs ''Grantor'' = Some (JObj g)
      \<and> (map_of g ''Date'' = None \<or> map_of g ''Price'' = None
          \<or> map_of g ''InstrumentType'' = None \<or> map_of g ''BureauOfConveyancesLink'' = None)
      \<longrightarrow> keep_transfer (JObj kvs) = Inr False)
   \<and> (map_of kvs ''Grantor'' = None \<longrightarrow> keep_transfer (JObj kvs) = Inl KeyError)
   \<and> (map_of kvs ''Grantor'' = None \<and> filter_transfers pre = Inr kept
        \<and> map_of tk ''Transfers'' = Some (JList (pre @ JObj kvs # post))
      \<longrightarrow> extract_taxmapkey_fields (JObj tk) = Inl KeyError)"
proof (intro conjI impI)
  assume "map_of kvs ''Grantor'' = Some (JObj g)
      \<and> (map_of g ''Date'' = None \<or> map_of g ''Price'' = None
          \<or> map_of g ''InstrumentType'' = None \<or> map_of g ''BureauOfConveyancesLink'' = None)"
  then show "keep_transfer (JObj kvs) = Inr False"
    by (simp add: keep_transfer_def py_subscript_def all_in_obj del: all_in.simps)
next
  assume "map_of kvs ''Grantor'' = None"
  then show "keep_transfer (JObj kvs) = Inl KeyError"
    by (simp add: keep_transfer_def py_subscript_def)
next
  assume a: "map_of kvs ''Grantor'' = None \<and> filter_transfers pre = Inr kept
        \<and> map_of tk ''Transfers'' = Some (JList (pre @ JObj kvs # post))"
  then have "keep_transfer (JObj kvs) = Inl KeyError"
    by (simp add: keep_transfer_def py_subscript_def)
  then have "filter_transfers (pre @ JObj kvs # post) = Inl KeyError"
    using a filter_transfers_raises by blast
  then show "extract_taxmapkey_fields (JObj tk) = Inl KeyError"
    using a
    by (simp add: extract_taxmapkey_fields_def dict_get_def dict_get_default_def
        py_contains_def py_subscript_def py_iter_def)
qed

theorem grantor_lookup_unguarded_witness:
  "keep_transfer (JObj [(''Grantor'', JObj [(''Date'', JStr ''2024-06-15T00:00:00-10:00'')])])
     = Inr False
   \<and> keep_transfer (JObj [(''Grantee'', JObj [])]) = Inl KeyError
   \<and> extract_taxmapkey_fields
       (JObj [(''ParcelNumber'', JStr ''1230010020000''),
              (''Transfers'',
               JList [deed_transfer ''2024-06-15T00:00:00-10:00'', JObj [(''Grantee'', JObj [])]])])
     = Inl KeyError"
proof -
  have f: "filter_transfers [deed_transfer ''2024-06-15T00:00:00-10:00'']
             = Inr [deed_transfer ''2024-06-15T00:00:00-10:00'']"
    by code_simp
  show ?thesis
    using f
      grantor_lookup_unguarded
        [of "[(''Grantor'', JObj [(''Date'', JStr ''2024-06-15T00:00:00-10:00'')])]"
            "[(''Date'', JStr ''2024-06-15T00:00:00-10:00'')]"]
      grantor_lookup_unguarded
        [of "[(''Grantee'', JObj [])]" "[]" "[deed_transfer ''2024-06-15T00:00:00-10:00'']"
            "[deed_transfer ''2024-06-15T00:00:00-10:00'']"
            "[(''ParcelNumber'', JStr ''1230010020000''),
              (''Transfers'',
               JList [deed_transfer ''2024-06-15T00:00:00-10:00'', JObj [(''Grantee'', JObj [])]])]"
            "[]"]
    by simp
qed


subsection \<open>The batch loop\<close>

lemma issued_write_to_file [simp]: "issued (write_to_file m l w) = issued w"
  by (simp add: write_to_file_def split: option.splits)

lemma issued_write_error [simp]: "issued (write_error m w) = issued w"
  by (simp add: write_error_def split: option.splits)

lemma issued_close_array [simp]: "issued (close_array w) = issued w"
  by (simp add: close_array_def split: option.splits)

lemma issued_write_batch [simp]: "issued (write_batch l rs w) = issued w"
  by (induction rs arbitrary: w) simp_all


lemma issued_fetch_batch:
  "issued (snd (fetch_batch api a n i w)) = issued w @ [batch_request a i]"
  apply (cases "api (batch_request a i)")
  subgoal for e resp
    by (cases resp) (simp_all add: fetch_batch_def Let_def)
  subgoal for d
    by (cases "response_results d") (simp_all add: fetch_batch_def Let_def)
  done
lemma issued_fetch_batches:
  "\<exists>k\<le>length js. issued (snd (fetch_batches api a n js w)) = issued w @ map (batch_request a) (take k js)
      \<and> (fst (fetch_batches api a n js w) = None \<longrightarrow> k = length js)"
proof (induction js arbitrary: w)
  case Nil
  then show ?case by simp
next
  case (Cons i js)
  obtain st w1 where fb: "fetch_batch api a n i w = (st, w1)"
    by (cases "fetch_batch api a n i w")
  have w1: "issued w1 = issued w @ [batch_request a i]"
    using issued_fetch_batch[of api a n i w] fb by simp
  show ?case
  proof (cases st)
    case (Some err)
    have eq: "fetch_batches api a n (i # js) w = (Some err, w1)"
      by (simp add: fb Some)
    have "1 \<le> length (i # js) \<and> issued (snd (Some err, w1)) = issued w @ map (batch_request a) (take 1 (i # js))
      \<and> (fst (Some err, w1) = None \<longrightarrow> 1 = length (i # js))"
      by (simp add: w1)
    then show ?thesis unfolding eq by (rule exI)
  next
    case None
    have eq: "fetch_batches api a n (i # js) w = fetch_batches api a n js w1"
      by (simp add: fb None)
    from Cons.IH[of w1] obtain k where k: "k \<le> length js"
      "issued (snd (fetch_batches api a n js w1)) = issued w1 @ map (batch_request a) (take k js)"
      "fst (fetch_batches api a n js w1) = None \<longrightarrow> k = length js"
      by (elim exE conjE)
    have "Suc k \<le> length (i # js)
      \<and> issued (snd (fetch_batches api a n js w1)) = issued w @ map (batch_request a) (take (Suc k) (i # js))
      \<and> (fst (fetch_batches api a n js w1) = None \<longrightarrow> Suc k = length (i # js))"
      using k by (simp add: w1)
    then show ?thesis unfolding eq by (rule exI)
  qed
qed


lemma num_requests_ceiling:
  assumes "0 < batch_size a"
  shows "num_requests_of a =
     \<lceil>real_of_int (end_index a - start_index a) / real_of_int (batch_size a)\<rceil>"
proof -
  define t where "t = end_index a - start_index a"
  define b where "b = batch_size a"
  have b: "0 < b" using assms b_def by simp
  have e: "b * (- t div b) + (- t) mod b = - t"
    by (rule mult_div_mod_eq)
  have "t + b - 1 = b * (- (- t div b)) + (b - 1 - (- t) mod b)"
    using e by (simp add: algebra_simps)
  moreover have "0 \<le> b - 1 - (- t) mod b" "b - 1 - (- t) mod b < b"
    using b pos_mod_bound[of b "- t"] pos_mod_sign[of b "- t"] by linarith+
  ultimately have "(t + b - 1) div b = - (- t div b)"
    by (rule int_div_pos_eq)
  then show ?thesis
    unfolding num_requests_of_def t_def[symmetric] b_def[symmetric]
    by (simp only: ceiling_divide_eq_div)
qed



lemma upt_take: "k \<le> n \<Longrightarrow> take k [0..<n] = [0..<k]"
  by (simp add: take_upt)

text \<open>
  Whatever the remote API answers, the requests a call issues are the first \<open>k\<close> of the
  schedule, in order, and all of them when the call returns normally.
\<close>

lemma fetch_results_prefix:
  assumes "start_index a < end_index a" and "0 < batch_size a"
  shows "\<exists>k\<le>nat \<lceil>real_of_int (end_index a - start_index a) / real_of_int (batch_size a)\<rceil>.
      issued (snd (fetch_results api a w)) =
        issued w @ map (\<lambda>i. \<lparr>req_offset = start_index a + int i * batch_size a,
                             req_limit = min (batch_size a)
                               (end_index a - (start_index a + int i * batch_size a)),
                             req_query = query a\<rparr>) [0..<k]
      \<and> (fst (fetch_results api a w) = None \<longrightarrow>
           k = nat \<lceil>real_of_int (end_index a - start_index a) / real_of_int (batch_size a)\<rceil>)"
proof -
  define n where "n = nat \<lceil>real_of_int (end_index a - start_index a) / real_of_int (batch_size a)\<rceil>"
  have nr: "nat (num_requests_of a) = n"
    using assms(2) by (simp add: n_def num_requests_ceiling)
  define r where "r = fetch_batches api a (num_requests_of a) [0..<n] w"
  from issued_fetch_batches[of "[0..<n]" api a "num_requests_of a" w]
  obtain k where k0: "k \<le> length [0..<n]"
    "issued (snd r) = issued w @ map (batch_request a) (take k [0..<n])"
    "fst r = None \<longrightarrow> k = length [0..<n]"
    unfolding r_def by (elim exE conjE)
  have k: "k \<le> n" "issued (snd r) = issued w @ map (batch_request a) (take k [0..<n])"
    "fst r = None \<longrightarrow> k = n"
    using k0 by simp_all
  have fr: "fetch_results api a w =
      (case r of (Some err, w') \<Rightarrow> (Some err, w') | (None, w') \<Rightarrow> (None, close_array w'))"
    using assms(2) by (simp add: fetch_results_def Let_def nr r_def)
  have i: "issued (snd (fetch_results api a w)) = issued (snd r)"
    and f: "fst (fetch_results api a w) = fst r"
    unfolding fr by (cases r; cases "fst r"; simp)+
  have m: "map (batch_request a) (take k [0..<n]) =
      map (\<lambda>i. \<lparr>req_offset = start_index a + int i * batch_size a,
                  req_limit = min (batch_size a)
                    (end_index a - (start_index a + int i * batch_size a)),
                  req_query = query a\<rparr>) [0..<k]"
    using k(1) by (simp add: upt_take batch_request_def Let_def)
  have "k \<le> n \<and> issued (snd (fetch_results api a w)) =
        issued w @ map (\<lambda>i. \<lparr>req_offset = start_index a + int i * batch_size a,
                             req_limit = min (batch_size a)
                               (end_index a - (start_index a + int i * batch_size a)),
                             req_query = query a\<rparr>) [0..<k]
      \<and> (fst (fetch_results api a w) = None \<longrightarrow> k = n)"
    unfolding i f k(2) m using k(1,3) by simp
  then show ?thesis unfolding n_def by (rule exI)
qed

lemma py_ge_cases: "py_ge p n = Inl TypeError \<or> (\<exists>b. py_ge p n = Inr b)"
  by (cases p) (simp_all add: py_ge_def)

lemma keep_transfer_returns:
  assumes "map_of kvs ''Grantor'' = Some (JObj g)"
  shows "\<exists>b. keep_transfer (JObj kvs) = Inr b"
proof (cases "map_of g ''Date'' \<noteq> None \<and> map_of g ''Price'' \<noteq> None
    \<and> map_of g ''InstrumentType'' \<noteq> None \<and> map_of g ''BureauOfConveyancesLink'' \<noteq> None")
  case False
  then have "keep_transfer (JObj kvs) = Inr False" using assms
    by (simp add: keep_transfer_def py_subscript_def all_in_obj del: all_in.simps)
  then show ?thesis by (rule exI)
next
  case True
  then obtain d p it l where f: "map_of g ''Date'' = Some d" "map_of g ''Price'' = Some p"
    "map_of g ''InstrumentType'' = Some it" "map_of g ''BureauOfConveyancesLink'' = Some l"
    by auto
  have kt: "keep_transfer (JObj kvs) =
      (case transfer_criteria (JObj kvs) of
              Inl ValueError \<Rightarrow> Inr False
            | Inl TypeError \<Rightarrow> Inr False
            | Inl e \<Rightarrow> Inl e
            | Inr b \<Rightarrow> Inr b)"
    using assms True by (simp add: keep_transfer_def py_subscript_def all_in_obj del: all_in.simps)
  note tc = transfer_criteria_obj[OF assms f]
  consider (te) "py_strptime d = Inl TypeError" | (ve) "py_strptime d = Inl ValueError"
    | (ok) dt where "py_strptime d = Inr dt"
    using py_strptime_cases by blast
  then show ?thesis
  proof cases
    case te
    then show ?thesis by (auto simp: kt tc)
  next
    case ve
    then show ?thesis by (auto simp: kt tc)
  next
    case ok
    from py_ge_cases[of p 200000] show ?thesis
    proof
      assume "py_ge p 200000 = Inl TypeError"
      then show ?thesis using ok by (auto simp: kt tc)
    next
      assume "\<exists>b. py_ge p 200000 = Inr b"
      then obtain b where "py_ge p 200000 = Inr b" ..
      then show ?thesis using ok by (auto simp: kt tc)
    qed
  qed
qed

lemma filter_transfers_returns:
  "list_all shaped_transfer ts \<Longrightarrow> \<exists>kept. filter_transfers ts = Inr kept"
proof (induction ts)
  case Nil
  then show ?case by simp
next
  case (Cons t ts)
  then obtain kept where k: "filter_transfers ts = Inr kept" by auto
  from Cons.prems obtain kvs g where "t = JObj kvs" "map_of kvs ''Grantor'' = Some (JObj g)"
    by (auto simp: shaped_transfer_def split: json.splits option.splits)
  then obtain b where "keep_transfer t = Inr b"
    using keep_transfer_returns by blast
  then show ?case using k by simp
qed

lemma extract_taxmapkey_fields_returns:
  assumes "shaped_parcel p"
  shows "\<exists>r. extract_taxmapkey_fields p = Inr r"
proof -
  from assms obtain kvs where p: "p = JObj kvs"
    by (cases p) (simp_all add: shaped_parcel_def)
  show ?thesis
  proof (cases "map_of kvs ''Transfers''")
    case None
    then show ?thesis
      by (simp add: p extract_taxmapkey_fields_def dict_get_def dict_get_default_def
          py_contains_def)
  next
    case (Some v)
    with assms p obtain ts where v: "v = JList ts" and s: "list_all shaped_transfer ts"
      by (cases v) (simp_all add: shaped_parcel_def)
    from filter_transfers_returns[OF s] obtain kept where "filter_transfers ts = Inr kept" ..
    then show ?thesis using Some v
      by (simp add: p extract_taxmapkey_fields_def dict_get_def dict_get_default_def
          py_contains_def py_subscript_def py_iter_def)
  qed
qed

lemma batch_items_returns:
  "list_all shaped_item items \<Longrightarrow> \<exists>rs. batch_items items = Inr rs"
proof (induction items)
  case Nil
  then show ?case by simp
next
  case (Cons item items)
  then obtain rs where r: "batch_items items = Inr rs" by auto
  from Cons.prems obtain kvs where i: "item = JObj kvs"
    by (cases item) (simp_all add: shaped_item_def)
  show ?case
  proof (cases "map_of kvs ''TaxMapKey''")
    case None
    then show ?thesis using r i by (simp add: py_contains_def)
  next
    case (Some p)
    then have "shaped_parcel p" using Cons.prems i by (simp add: shaped_item_def)
    then obtain x where "extract_taxmapkey_fields p = Inr x"
      using extract_taxmapkey_fields_returns by blast
    then show ?thesis using r i Some by (simp add: py_contains_def py_subscript_def)
  qed
qed

lemma response_results_returns:
  assumes "shaped_response r"
  shows "\<exists>rs. response_results r = Inr rs"
proof -
  from assms obtain kvs where r: "r = JObj kvs"
    by (cases r) (simp_all add: shaped_response_def)
  show ?thesis
  proof (cases "map_of kvs ''data''")
    case None
    then show ?thesis by (simp add: r response_results_def py_contains_def)
  next
    case (Some v)
    with assms r obtain items where v: "v = JList items" and s: "list_all shaped_item items"
      by (cases v) (simp_all add: shaped_response_def)
    from batch_items_returns[OF s] obtain rs where "batch_items items = Inr rs" ..
    then show ?thesis using Some v
      by (simp add: r response_results_def py_contains_def py_subscript_def py_iter_def)
  qed
qed

lemma fetch_batch_conforming:
  assumes "conforming (api (batch_request a i))"
  shows "fst (fetch_batch api a n i w) = None"
proof (cases "api (batch_request a i)")
  case (RequestException e resp)
  then show ?thesis by (simp add: fetch_batch_def Let_def)
next
  case (Response d)
  then have "shaped_response d" using assms by (simp add: conforming_def)
  then obtain rs where "response_results d = Inr rs"
    using response_results_returns by blast
  then show ?thesis using Response by (simp add: fetch_batch_def Let_def)
qed

lemma fetch_batches_conforming:
  "\<forall>i\<in>set js. conforming (api (batch_request a i)) \<Longrightarrow> fst (fetch_batches api a n js w) = None"
proof (induction js arbitrary: w)
  case Nil
  then show ?case by simp
next
  case (Cons i js)
  obtain st w1 where fb: "fetch_batch api a n i w = (st, w1)"
    by (cases "fetch_batch api a n i w")
  have "st = None"
    using fetch_batch_conforming[of api a i n w] Cons.prems fb by simp
  then show ?case using Cons fb by simp
qed

text \<open>
  An answer outside the expected shape can end a call before the schedule is through: a
  transfer without a \<^verbatim>\<open>Grantor\<close> raises \<^verbatim>\<open>KeyError\<close> in the filter, no handler of the loop
  catches it, and of three requests one is issued.
\<close>

lemma fetch_results_without_grantor:
  "fetch_results api_no_grantor args_2500 new_client =
     (Some KeyError, \<lparr>output_file = Some [Open],
        issued = [\<lparr>req_offset = 0, req_limit = 1000, req_query = ''q''\<rparr>]\<rparr>)"
  by code_simp

text \<open>
  C5. Over a range with \<open>start < end\<close> and a batch size \<open>b > 0\<close>, against a remote API
  that answers every request with a request exception or a response of the expected shape,
  the fetcher returns normally and issues exactly \<open>\<lceil>(end - start) / b\<rceil>\<close> requests, the
  \<open>i\<close>-th at offset \<open>start + i * b\<close> with limit \<open>min b (end - offset)\<close>; over the range
  from 0 to 2500 with batch size 1000 these are the requests at 0, 1000 and 2000 with the
  limits 1000, 1000 and 500.
\<close>

theorem fetch_results_requests:
  assumes "start_index a < end_index a" and "0 < batch_size a"
    and "\<forall>r. conforming (api r)"
  shows "fst (fetch_results api a w) = None
     \<and> issued (snd (fetch_results api a w)) =
        issued w @ map (\<lambda>i. \<lparr>req_offset = start_index a + int i * batch_size a,
                             req_limit = min (batch_size a)
                               (end_index a - (start_index a + int i * batch_size a)),
                             req_query = query a\<rparr>)
                     [0..<nat \<lceil>real_of_int (end_index a - start_index a)
                                 / real_of_int (batch_size a)\<rceil>]"
proof -
  have "fst (fetch_batches api a (num_requests_of a) [0..<nat (num_requests_of a)] w) = None"
    using assms(3) by (intro fetch_batches_conforming) simp
  then have f: "fst (fetch_results api a w) = None"
    using assms(2)
    by (cases "fetch_batches api a (num_requests_of a) [0..<nat (num_requests_of a)] w")
      (simp add: fetch_results_def Let_def)
  from fetch_results_prefix[OF assms(1,2), of api w] f show ?thesis
    by auto
qed

theorem fetch_results_requests_witness:
  "fst (fetch_results api_deeds args_2500 new_client) = None
   \<and> issued (snd (fetch_results api_deeds args_2500 new_client)) =
     [\<lparr>req_offset = 0, req_limit = 1000, req_query = ''q''\<rparr>,
      \<lparr>req_offset = 1000, req_limit = 1000, req_query = ''q''\<rparr>,
      \<lparr>req_offset = 2000, req_limit = 500, req_query = ''q''\<rparr>]
   \<and> fst (fetch_results api_fail_1000 args_2500 new_client) = None
   \<and> issued (snd (fetch_results api_fail_1000 args_2500 new_client)) =
     [\<lparr>req_offset = 0, req_limit = 1000, req_query = ''q''\<rparr>,
      \<lparr>req_offset = 1000, req_limit = 1000, req_query = ''q''\<rparr>,
      \<lparr>req_offset = 2000, req_limit = 500, req_query = ''q''\<rparr>]"
proof -
  have c: "\<lceil>real_of_int (2500 - 0) / real_of_int 1000\<rceil> = - (- (2500 - 0) div 1000)"
    by (rule ceiling_divide_eq_div)
  have n: "nat \<lceil>real_of_int (end_index args_2500 - start_index args_2500)
            / real_of_int (batch_size args_2500)\<rceil> = 3"
    using c by (simp add: args_2500_def)
  have h: "start_index args_2500 < end_index args_2500" "0 < batch_size args_2500"
    by (simp_all add: args_2500_def)
  have s: "\<forall>r. conforming (api_fail_1000 r)"
    by (simp add: api_fail_1000_def conforming_def shaped_response_def shaped_item_def
        shaped_parcel_def)
  have d: "\<forall>r. conforming (api_deeds r)"
    by (simp add: api_deeds_def conforming_def shaped_response_def shaped_item_def
        shaped_parcel_def shaped_transfer_def parcel_def deed_transfer_def)
  from fetch_results_requests[OF h s, of new_client] fetch_results_requests[OF h d, of new_client]
  show ?thesis
    unfolding n
    by (simp add: args_2500_def new_client_def upt_rec)
qed

lemma fetch_batches_append:
  "fetch_batches api a n (pre @ post) w =
     (case fetch_batches api a n pre w of
        (Some err, w') \<Rightarrow> (Some err, w')
      | (None, w') \<Rightarrow> fetch_batches api a n post w')"
proof (induction pre arbitrary: w)
  case Nil
  then show ?case by simp
next
  case (Cons i pre)
  obtain st w1 where fb: "fetch_batch api a n i w = (st, w1)"
    by (cases "fetch_batch api a n i w")
  show ?case
    by (cases st) (simp_all add: fb Cons.IH)
qed

text \<open>
  C4. When the request of a batch fails with a request exception, an error annotation
  naming the failed offset is written (and the response's text, when the exception carries
  one), and the loop goes on with the batches that remain: the run after the failure is the
  run of the remaining batches from the annotated file.
\<close>

theorem request_failure_continues:
  assumes "fetch_batches api a n pre w = (None, w1)"
    and "api (batch_request a i) = RequestException e resp"
  shows "fetch_batches api a n (pre @ i # rest) w =
     fetch_batches api a n rest
       ((case resp of None \<Rightarrow> id | Some text \<Rightarrow> write_error (''Error response: '' @ text))
          (write_error (''Error making request at offset ''
                          @ str_int (start_index a + int i * batch_size a) @ '': '' @ e)
             (w1\<lparr>issued := issued w1 @ [batch_request a i]\<rparr>)))"
proof -
  have o: "req_offset (batch_request a i) = start_index a + int i * batch_size a"
    by (simp add: batch_request_def Let_def)
  have "fetch_batch api a n i w1 =
     (None, (case resp of None \<Rightarrow> id | Some text \<Rightarrow> write_error (''Error response: '' @ text))
          (write_error (''Error making request at offset ''
                          @ str_int (start_index a + int i * batch_size a) @ '': '' @ e)
             (w1\<lparr>issued := issued w1 @ [batch_request a i]\<rparr>)))"
    using assms(2) by (cases resp) (simp_all add: fetch_batch_def Let_def o)
  then show ?thesis
    by (simp add: fetch_batches_append assms(1))
qed

theorem request_failure_continues_witness:
  "fetch_batches api_fail_1000 args_2500 3 ([0] @ 1 # [2]) new_client =
     (None,
      \<lparr>output_file = Some [Open, Val (parcel_record 0), Sep,
          Comment ''ERROR: Error making request at offset 1000: timeout'',
          Val (parcel_record 2000)],
       issued = [\<lparr>req_offset = 0, req_limit = 1000, req_query = ''q''\<rparr>,
                 \<lparr>req_offset = 1000, req_limit = 1000, req_query = ''q''\<rparr>,
                 \<lparr>req_offset = 2000, req_limit = 500, req_query = ''q''\<rparr>]\<rparr>)"
proof -
  have p: "fetch_batches api_fail_1000 args_2500 3 [0] new_client =
     (None, \<lparr>output_file = Some [Open, Val (parcel_record 0), Sep],
             issued = [\<lparr>req_offset = 0, req_limit = 1000, req_query = ''q''\<rparr>]\<rparr>)"
    by code_simp
  have f: "api_fail_1000 (batch_request args_2500 1) = RequestException ''timeout'' None"
    by code_simp
  have r: "fetch_batches api_fail_1000 args_2500 3 [2]
     ((case None of None \<Rightarrow> id | Some text \<Rightarrow> write_error (''Error response: '' @ text))
          (write_error (''Error making request at offset ''
                          @ str_int (start_index args_2500 + int 1 * batch_size args_2500) @ '': '' @ ''timeout'')
             (\<lparr>output_file = Some [Open, Val (parcel_record 0), Sep],
             issued = [\<lparr>req_offset = 0, req_limit = 1000, req_query = ''q''\<rparr>]\<rparr>
               \<lparr>issued := issued \<lparr>output_file = Some [Open, Val (parcel_record 0), Sep],
             issued = [\<lparr>req_offset = 0, req_limit = 1000, req_query = ''q''\<rparr>]\<rparr> @ [batch_request args_2500 1]\<rparr>))) =
     (None,
      \<lparr>output_file = Some [Open, Val (parcel_record 0), Sep,
          Comment ''ERROR: Error making request at offset 1000: timeout'',
          Val (parcel_record 2000)],
       issued = [\<lparr>req_offset = 0, req_limit = 1000, req_query = ''q''\<rparr>,
                 \<lparr>req_offset = 1000, req_limit = 1000, req_query = ''q''\<rparr>,
                 \<lparr>req_offset = 2000, req_limit = 500, req_query = ''q''\<rparr>]\<rparr>)"
    by code_simp
  show ?thesis
    using request_failure_continues[OF p f, of "[2]"] r by simp
qed

subsection \<open>The enrichment step\<close>

lemma item_key_transfer_record:
  "item_key (transfer_record pn tmk d pr l tax) = hash_key (pn, d, pr, l)"
  by (simp add: item_key_def transfer_record_def dict_get_def dict_get_default_def)

lemma process_transfer_fields:
  assumes "process_transfer ex existing pn tmk t st = Inr st'"
  obtains g d pr l k where "dict_get_default t ''Grantor'' (JObj []) = Inr g"
    "dict_get g ''Date'' = Inr d" "dict_get g ''Price'' = Inr pr"
    "dict_get g ''BureauOfConveyancesLink'' = Inr l" "hash_key (pn, d, pr, l) = Inr k"
proof -
  obtain g where g: "dict_get_default t ''Grantor'' (JObj []) = Inr g"
    using assms by (cases "dict_get_default t ''Grantor'' (JObj [])") (simp_all add: process_transfer_def)
  obtain d where d: "dict_get g ''Date'' = Inr d"
    using assms g by (cases "dict_get g ''Date''") (simp_all add: process_transfer_def)
  obtain pr where pr: "dict_get g ''Price'' = Inr pr"
    using assms g d by (cases "dict_get g ''Price''") (simp_all add: process_transfer_def)
  obtain l where l: "dict_get g ''BureauOfConveyancesLink'' = Inr l"
    using assms g d pr
    by (cases "dict_get g ''BureauOfConveyancesLink''") (simp_all add: process_transfer_def)
  obtain k where k: "hash_key (pn, d, pr, l) = Inr k"
    using assms g d pr l
    by (cases "hash_key (pn, d, pr, l)") (simp_all add: process_transfer_def)
  show thesis using that g d pr l k by blast
qed


lemma file_keys_append [simp]: "file_keys (xs @ ys) = file_keys xs @ file_keys ys"
  by (induction xs rule: file_keys.induct) (simp_all split: sum.splits)

lemma file_records_append [simp]: "file_records (xs @ ys) = file_records xs @ file_records ys"
  by (induction xs rule: file_records.induct) simp_all

lemma map_of_None_iff: "(map_of al k = None) = (k \<notin> fst ` set al)"
  by (simp add: map_of_eq_None_iff)

text \<open>What one round of the loop over the transfers does when it does not raise.\<close>

lemma process_transfer_step:
  assumes "process_transfer ex existing pn tmk t st = Inr st'"
  shows "\<exists>k. transfer_key_of pn t = Inr k \<and>
     (if k \<in> fst ` set existing \<or> k \<in> fst ` set (new_transfers st) then st' = st
      else \<exists>rcd. item_key rcd = Inr k
             \<and> out_chunks st' = out_chunks st @ (if \<not> first_item st then [Sep] else []) @ [Val rcd]
             \<and> new_transfers st' = AList.update k rcd (new_transfers st)
             \<and> \<not> first_item st')"
proof -
  from assms obtain g d pr l k where f: "dict_get_default t ''Grantor'' (JObj []) = Inr g"
    "dict_get g ''Date'' = Inr d" "dict_get g ''Price'' = Inr pr"
    "dict_get g ''BureauOfConveyancesLink'' = Inr l" "hash_key (pn, d, pr, l) = Inr k"
    by (rule process_transfer_fields)
  have tk: "transfer_key_of pn t = Inr k"
    by (simp add: transfer_key_of_def f)
  show ?thesis
  proof (cases "k \<in> fst ` set existing \<or> k \<in> fst ` set (new_transfers st)")
    case True
    have "st' = st"
    proof (cases "map_of existing k = None")
      case False
      then show ?thesis using assms by (simp add: process_transfer_def f)
    next
      case e: True
      then have "map_of (new_transfers st) k \<noteq> None"
        using True by (simp add: map_of_None_iff)
      then obtain y where "map_of (new_transfers st) k = Some y"
        by auto
      then show ?thesis using assms e by (simp add: process_transfer_def f)
    qed
    then show ?thesis using tk True by simp
  next
    case False
    then have n: "map_of existing k = None" "map_of (new_transfers st) k = None"
      by (simp_all add: map_of_None_iff)
    define tax where "tax = (if truthy l
                 then (case ex l of Inr tax \<Rightarrow> tax | Inl _ \<Rightarrow> ''ERROR'')
                 else ''ERROR'')"
    have st': "st' = \<lparr>out_chunks = out_chunks st @ (if \<not> first_item st then [Sep] else [])
                                   @ [Val (transfer_record pn tmk d pr l tax)],
                   new_transfers = AList.update k (transfer_record pn tmk d pr l tax) (new_transfers st),
                   first_item = False,
                   extracted = extracted st @ (if truthy l then [l] else [])\<rparr>"
      using assms by (simp add: process_transfer_def f n Let_def tax_def)
    have ik: "item_key (transfer_record pn tmk d pr l tax) = Inr k"
      by (simp add: item_key_transfer_record f)
    have "\<exists>rcd. item_key rcd = Inr k
             \<and> out_chunks st' = out_chunks st @ (if \<not> first_item st then [Sep] else []) @ [Val rcd]
             \<and> new_transfers st' = AList.update k rcd (new_transfers st)
             \<and> \<not> first_item st'"
      by (rule exI[of _ "transfer_record pn tmk d pr l tax"]) (simp add: ik st')
    then show ?thesis using tk False by simp
  qed
qed

lemma loop_inv_step:
  assumes "process_transfer ex existing pn tmk t st = Inr st'"
    and "loop_inv (fst ` set existing) st"
  shows "loop_inv (fst ` set existing) st'"
proof -
  from process_transfer_step[OF assms(1)] obtain k where
    k: "if k \<in> fst ` set existing \<or> k \<in> fst ` set (new_transfers st) then st' = st
      else \<exists>rcd. item_key rcd = Inr k
             \<and> out_chunks st' = out_chunks st @ (if \<not> first_item st then [Sep] else []) @ [Val rcd]
             \<and> new_transfers st' = AList.update k rcd (new_transfers st)
             \<and> \<not> first_item st'"
    by (elim exE conjE)
  show ?thesis
  proof (cases "k \<in> fst ` set existing \<or> k \<in> fst ` set (new_transfers st)")
    case True
    then show ?thesis using k assms(2) by simp
  next
    case False
    then obtain rcd where r: "item_key rcd = Inr k"
      "out_chunks st' = out_chunks st @ (if \<not> first_item st then [Sep] else []) @ [Val rcd]"
      "new_transfers st' = AList.update k rcd (new_transfers st)"
      using k by auto
    have fk: "file_keys (out_chunks st') = file_keys (out_chunks st) @ [k]"
      by (simp add: r)
    have "k \<notin> set (file_keys (out_chunks st))"
      using assms(2) False unfolding loop_inv_def by blast
    then show ?thesis
      using assms(2) unfolding loop_inv_def fk r(3) AList.dom_update by auto
  qed
qed

lemma loop_inv_transfers:
  "loop_inv (fst ` set existing) st \<Longrightarrow>
     loop_inv (fst ` set existing) (snd (process_transfers ex existing pn tmk ts st))"
proof (induction ts arbitrary: st)
  case Nil
  then show ?case by simp
next
  case (Cons t ts)
  show ?case
  proof (cases "process_transfer ex existing pn tmk t st")
    case (Inl e)
    then show ?thesis using Cons.prems by simp
  next
    case (Inr st')
    then have "loop_inv (fst ` set existing) st'"
      using loop_inv_step Cons.prems by blast
    then show ?thesis using Cons.IH Inr by simp
  qed
qed

lemma loop_inv_taxmapkey:
  "loop_inv (fst ` set existing) st \<Longrightarrow>
     loop_inv (fst ` set existing) (snd (process_taxmapkey ex existing tk st))"
  unfolding process_taxmapkey_def
  by (auto split: sum.splits simp: loop_inv_transfers)

lemma loop_inv_items:
  "loop_inv (fst ` set existing) st \<Longrightarrow>
     loop_inv (fst ` set existing) (snd (process_items ex existing tks st))"
proof (induction tks arbitrary: st)
  case Nil
  then show ?case by simp
next
  case (Cons tk tks)
  obtain e st' where p: "process_taxmapkey ex existing tk st = (e, st')"
    by (cases "process_taxmapkey ex existing tk st")
  have i: "loop_inv (fst ` set existing) st'"
    using loop_inv_taxmapkey[OF Cons.prems, of ex tk] p by simp
  show ?case
  proof (cases e)
    case None
    then show ?thesis using p Cons.IH[OF i] by simp
  next
    case (Some err)
    then show ?thesis using p i by simp
  qed
qed


lemma parse_items_records: "parse_items xs = Some vs \<Longrightarrow> file_records xs = vs"
  by (induction xs arbitrary: vs rule: parse_items.induct) auto

lemma json_load_records: "json_load cs = Some recs \<Longrightarrow> file_records cs = recs"
  by (auto simp: json_load_def parse_items_records split: list.splits chunk.splits if_splits)

lemma file_keys_records: "file_keys cs = file_keys (map Val (file_records cs))"
  by (induction cs rule: file_keys.induct) (simp_all split: sum.splits)

lemma load_existing_keys:
  "load_existing recs al = Inr ex \<Longrightarrow>
     fst ` set ex = fst ` set al \<union> set (file_keys (map Val recs))"
proof (induction recs arbitrary: al)
  case Nil
  then show ?case by simp
next
  case (Cons item recs)
  then obtain k where k: "item_key item = Inr k"
    by (cases "item_key item") simp_all
  then have "load_existing recs (AList.update k item al) = Inr ex"
    using Cons.prems by simp
  then have "fst ` set ex = fst ` set (AList.update k item al) \<union> set (file_keys (map Val recs))"
    by (rule Cons.IH)
  then show ?case by (simp add: k AList.dom_update)
qed

lemma process_input_keys:
  assumes "distinct (file_keys file)" and "set (file_keys file) \<subseteq> fst ` set existing"
  shows "distinct (file_keys (result_file (process_input ex input existing file)))"
proof (cases input)
  case InputMissing
  then show ?thesis using assms(1) by (simp add: process_input_def)
next
  case InputInvalid
  then show ?thesis using assms(1) by (simp add: process_input_def)
next
  case (InputData d)
  show ?thesis
  proof (cases "py_iter d")
    case (Inl e)
    then show ?thesis using assms(1) InputData by (simp add: process_input_def)
  next
    case (Inr tks)
    define st0 where "st0 = \<lparr>out_chunks = file, new_transfers = [], first_item = (existing = []),
                         extracted = []\<rparr>"
    have "loop_inv (fst ` set existing) st0"
      using assms by (simp add: loop_inv_def st0_def)
    then have i: "loop_inv (fst ` set existing) (snd (process_items ex existing tks st0))"
      by (rule loop_inv_items)
    obtain e st where p: "process_items ex existing tks st0 = (e, st)"
      by (cases "process_items ex existing tks st0")
    have "distinct (file_keys (out_chunks st))"
      using i p by (simp add: loop_inv_def)
    then show ?thesis
      using InputData Inr p by (cases e) (simp_all add: process_input_def st0_def[symmetric])
  qed
qed

lemma process_housing_data_keys:
  assumes "keys_unique out0"
  shows "distinct (file_keys (result_file (process_housing_data ex input out0)))"
proof (cases "case out0 of None \<Rightarrow> None | Some cs \<Rightarrow> map_option (Pair cs) (json_load cs)")
  case None
  then have "process_housing_data ex input out0 = process_input ex input [] [Open]"
    by (simp add: process_housing_data_def)
  then show ?thesis by (simp add: process_input_keys)
next
  case (Some a)
  then obtain cs recs where o: "out0 = Some cs" "json_load cs = Some recs" "a = (cs, recs)"
    by (auto split: option.splits)
  have d: "distinct (file_keys cs)"
    using assms o by (simp add: keys_unique_def)
  show ?thesis
  proof (cases "load_existing recs []")
    case (Inl e)
    then show ?thesis using d o by (simp add: process_housing_data_def)
  next
    case (Inr existing)
    have "fst ` set existing = set (file_keys (map Val recs))"
      using load_existing_keys[OF Inr] by simp
    then have "set (file_keys cs) \<subseteq> fst ` set existing"
      using file_keys_records[of cs] json_load_records[OF o(2)] by simp
    then have "distinct (file_keys (result_file (process_input ex input existing cs)))"
      using d by (intro process_input_keys)
    then show ?thesis using o Inr by (simp add: process_housing_data_def)
  qed
qed

lemma run_many_keys: "keys_unique out0 \<Longrightarrow> keys_unique (run_many runs out0)"
proof (induction runs arbitrary: out0)
  case Nil
  then show ?case by simp
next
  case (Cons r rs)
  have "keys_unique (Some (result_file (process_housing_data (fst r) (snd r) out0)))"
    using process_housing_data_keys[OF Cons.prems] by (simp add: keys_unique_def)
  then show ?case using Cons.IH by simp
qed

lemma transfer_key_fields:
  assumes "transfer_key_of pn t = Inr k"
  obtains g d pr l where "dict_get_default t ''Grantor'' (JObj []) = Inr g"
    "dict_get g ''Date'' = Inr d" "dict_get g ''Price'' = Inr pr"
    "dict_get g ''BureauOfConveyancesLink'' = Inr l" "hash_key (pn, d, pr, l) = Inr k"
proof -
  obtain g where g: "dict_get_default t ''Grantor'' (JObj []) = Inr g"
    using assms by (cases "dict_get_default t ''Grantor'' (JObj [])") (simp_all add: transfer_key_of_def)
  obtain d where d: "dict_get g ''Date'' = Inr d"
    using assms g by (cases "dict_get g ''Date''") (simp_all add: transfer_key_of_def)
  obtain pr where pr: "dict_get g ''Price'' = Inr pr"
    using assms g d by (cases "dict_get g ''Price''") (simp_all add: transfer_key_of_def)
  obtain l where l: "dict_get g ''BureauOfConveyancesLink'' = Inr l"
    using assms g d pr
    by (cases "dict_get g ''BureauOfConveyancesLink''") (simp_all add: transfer_key_of_def)
  have k: "hash_key (pn, d, pr, l) = Inr k"
    using assms g d pr l by (simp add: transfer_key_of_def)
  show thesis using that g d pr l k by blast
qed

lemma seen_transfer_skipped:
  assumes "transfer_key_of pn t = Inr k"
    and "k \<in> fst ` set existing \<or> k \<in> fst ` set (new_transfers st)"
  shows "process_transfer ex existing pn tmk t st = Inr st"
proof -
  from assms(1) obtain g d pr l where f: "dict_get_default t ''Grantor'' (JObj []) = Inr g"
    "dict_get g ''Date'' = Inr d" "dict_get g ''Price'' = Inr pr"
    "dict_get g ''BureauOfConveyancesLink'' = Inr l" "hash_key (pn, d, pr, l) = Inr k"
    by (rule transfer_key_fields)
  show ?thesis
  proof (cases "map_of existing k = None")
    case False
    then show ?thesis by (simp add: process_transfer_def f)
  next
    case e: True
    then have "map_of (new_transfers st) k \<noteq> None"
      using assms(2) by (simp add: map_of_None_iff)
    then obtain y where "map_of (new_transfers st) k = Some y"
      by auto
    then show ?thesis using e by (simp add: process_transfer_def f)
  qed
qed

text \<open>
  C1. After any number of runs of the enrichment step against the same output file, the file
  holds at most one record for each record key, provided it did so before the first run
  (an absent file does): before a transfer is appended its key is looked up among the
  records loaded at the start and among those written earlier in the run, and a transfer
  found in either is left out.
\<close>

theorem record_keys_unique:
  "(keys_unique out0 \<longrightarrow> keys_unique (run_many runs out0))
   \<and> keys_unique (run_many runs None)
   \<and> (transfer_key_of pn t = Inr k
        \<and> (k \<in> fst ` set existing \<or> k \<in> fst ` set (new_transfers st))
      \<longrightarrow> process_transfer ex existing pn tmk t st = Inr st)"
  using run_many_keys[of out0 runs] run_many_keys[of None runs] seen_transfer_skipped
  by (auto simp: keys_unique_def)


text \<open>
  C9. A transfer not seen before whose document link is absent or null (\<^verbatim>\<open>.get\<close> gives
  \<^verbatim>\<open>None\<close> for both) or the empty string is not skipped: a record of its six fields is
  appended whose \<^verbatim>\<open>ConveyanceTax\<close> is the string \<^verbatim>\<open>ERROR\<close>, and the tax extractor is
  not called (no link is added to the calls, whatever the extractor would answer). Date,
  price and instrument type are not examined: the selection predicate plays no part.
\<close>

theorem missing_link_recorded_as_error:
  assumes "dict_get_default t ''Grantor'' (JObj []) = Inr g"
    and "dict_get g ''Date'' = Inr d" and "dict_get g ''Price'' = Inr pr"
    and "dict_get g ''BureauOfConveyancesLink'' = Inr l"
    and "l = JNull \<or> l = JStr []"
    and "hash_key (pn, d, pr, l) = Inr k"
    and "k \<notin> fst ` set existing" and "k \<notin> fst ` set (new_transfers st)"
  shows "\<exists>rcd. process_transfer ex existing pn tmk t st =
       Inr \<lparr>out_chunks = out_chunks st @ (if \<not> first_item st then [Sep] else []) @ [Val rcd],
            new_transfers = AList.update k rcd (new_transfers st),
            first_item = False,
            extracted = extracted st\<rparr>
     \<and> rcd = JObj [(''ParcelNumber'', pn), (''TMK'', tmk), (''Date'', d), (''Price'', pr),
                   (''BureauOfConveyancesLink'', l), (''ConveyanceTax'', JStr ''ERROR'')]
     \<and> dict_get rcd ''ConveyanceTax'' = Inr (JStr ''ERROR'')"
proof -
  have n: "map_of existing k = None" "map_of (new_transfers st) k = None"
    using assms(7,8) by (simp_all add: map_of_None_iff)
  have "\<not> truthy l"
    using assms(5) by (auto simp: truthy_def)
  then have "process_transfer ex existing pn tmk t st =
       Inr \<lparr>out_chunks = out_chunks st @ (if \<not> first_item st then [Sep] else [])
                            @ [Val (transfer_record pn tmk d pr l ''ERROR'')],
            new_transfers = AList.update k (transfer_record pn tmk d pr l ''ERROR'') (new_transfers st),
            first_item = False,
            extracted = extracted st\<rparr>"
    by (simp add: process_transfer_def assms(1,2,3,4,6) n Let_def)
  moreover have "dict_get (transfer_record pn tmk d pr l ''ERROR'') ''ConveyanceTax''
      = Inr (JStr ''ERROR'')"
    by (simp add: transfer_record_def dict_get_def dict_get_default_def)
  ultimately show ?thesis
    by (simp add: transfer_record_def)
qed

lemma length_update_new:
  "k \<notin> fst ` set al \<Longrightarrow> length (AList.update k v al) = Suc (length al)"
  using AList.update_keys[of k v al] length_map[of fst "AList.update k v al"]
  by (metis length_append_singleton length_map list.set_map)

lemma appended_step:
  assumes "process_transfer ex existing pn tmk t st = Inr st'"
    and "appended file (fst ` set existing) K st"
  shows "\<exists>k. transfer_key_of pn t = Inr k \<and> appended file (fst ` set existing) (insert k K) st'"
proof -
  from process_transfer_step[OF assms(1)] obtain k where tk: "transfer_key_of pn t = Inr k" and
    k: "if k \<in> fst ` set existing \<or> k \<in> fst ` set (new_transfers st) then st' = st
      else \<exists>rcd. item_key rcd = Inr k
             \<and> out_chunks st' = out_chunks st @ (if \<not> first_item st then [Sep] else []) @ [Val rcd]
             \<and> new_transfers st' = AList.update k rcd (new_transfers st)
             \<and> \<not> first_item st'"
    by (elim exE conjE)
  from assms(2) obtain app where a: "out_chunks st = file @ app"
    "length (file_records app) = length (new_transfers st)"
    "distinct (map fst (new_transfers st))"
    "fst ` set (new_transfers st) = K - fst ` set existing"
    unfolding appended_def by (elim exE conjE)
  have "appended file (fst ` set existing) (insert k K) st'"
  proof (cases "k \<in> fst ` set existing \<or> k \<in> fst ` set (new_transfers st)")
    case True
    then have "st' = st" using k by simp
    moreover have "insert k K - fst ` set existing = K - fst ` set existing"
      using True a(4) by auto
    ultimately show ?thesis using assms(2) by (simp add: appended_def)
  next
    case False
    then obtain rcd where r:
      "out_chunks st' = out_chunks st @ (if \<not> first_item st then [Sep] else []) @ [Val rcd]"
      "new_transfers st' = AList.update k rcd (new_transfers st)"
      using k by auto
    have 1: "out_chunks st' = file @ (app @ (if \<not> first_item st then [Sep] else []) @ [Val rcd])"
      by (simp add: r(1) a(1))
    have 2: "length (file_records (app @ (if \<not> first_item st then [Sep] else []) @ [Val rcd]))
        = length (new_transfers st')"
      using False by (simp add: r(2) a(2) length_update_new)
    have 3: "distinct (map fst (new_transfers st'))"
      unfolding r(2) using a(3) by (rule AList.distinct_update)
    have 4: "fst ` set (new_transfers st') = insert k K - fst ` set existing"
      unfolding r(2) AList.dom_update using False a(4) by auto
    show ?thesis
      unfolding appended_def using 1 2 3 4 by blast
  qed
  then show ?thesis using tk by blast
qed

lemma appended_transfers:
  "process_transfers ex existing pn tmk ts st = (None, st') \<Longrightarrow>
   appended file (fst ` set existing) K st \<Longrightarrow>
   appended file (fst ` set existing) (K \<union> set (keys_of_transfers pn ts)) st'"
proof (induction ts arbitrary: st K)
  case Nil
  then show ?case by (simp add: keys_of_transfers_def)
next
  case (Cons t ts)
  show ?case
  proof (cases "process_transfer ex existing pn tmk t st")
    case (Inl e)
    then show ?thesis using Cons.prems(1) by simp
  next
    case (Inr st1)
    from appended_step[OF Inr Cons.prems(2)] obtain k where
      k: "transfer_key_of pn t = Inr k" "appended file (fst ` set existing) (insert k K) st1"
      by (elim exE conjE)
    have "process_transfers ex existing pn tmk ts st1 = (None, st')"
      using Cons.prems(1) Inr by simp
    then have "appended file (fst ` set existing) (insert k K \<union> set (keys_of_transfers pn ts)) st'"
      using k(2) by (rule Cons.IH)
    moreover have "K \<union> set (keys_of_transfers pn (t # ts)) = insert k K \<union> set (keys_of_transfers pn ts)"
      by (simp add: keys_of_transfers_def k(1))
    ultimately show ?thesis by simp
  qed
qed

lemma appended_taxmapkey:
  assumes "process_taxmapkey ex existing tk st = (None, st')"
    and "appended file (fst ` set existing) K st"
  shows "appended file (fst ` set existing) (K \<union> set (taxmapkey_keys tk)) st'"
proof -
  obtain pn where pn: "dict_get tk ''ParcelNumber'' = Inr pn"
    using assms(1) by (cases "dict_get tk ''ParcelNumber''") (simp_all add: process_taxmapkey_def)
  obtain tmk where tmk: "tmk_of pn = Inr tmk"
    using assms(1) pn by (cases "tmk_of pn") (simp_all add: process_taxmapkey_def)
  obtain tr where tr: "dict_get_default tk ''Transfers'' (JList []) = Inr tr"
    using assms(1) pn tmk
    by (cases "dict_get_default tk ''Transfers'' (JList [])") (simp_all add: process_taxmapkey_def)
  obtain ts where ts: "py_iter tr = Inr ts"
    using assms(1) pn tmk tr by (cases "py_iter tr") (simp_all add: process_taxmapkey_def)
  have "process_transfers ex existing pn tmk ts st = (None, st')"
    using assms(1) by (simp add: process_taxmapkey_def pn tmk tr ts)
  then have "appended file (fst ` set existing) (K \<union> set (keys_of_transfers pn ts)) st'"
    using assms(2) by (rule appended_transfers)
  moreover have "taxmapkey_keys tk = keys_of_transfers pn ts"
    by (simp add: taxmapkey_keys_def pn tr ts)
  ultimately show ?thesis by simp
qed

lemma appended_items:
  "process_items ex existing tks st = (None, st') \<Longrightarrow>
   appended file (fst ` set existing) K st \<Longrightarrow>
   appended file (fst ` set existing) (K \<union> set (concat (map taxmapkey_keys tks))) st'"
proof (induction tks arbitrary: st K)
  case Nil
  then show ?case by simp
next
  case (Cons tk tks)
  obtain e st1 where p: "process_taxmapkey ex existing tk st = (e, st1)"
    by (cases "process_taxmapkey ex existing tk st")
  show ?case
  proof (cases e)
    case (Some err)
    then show ?thesis using Cons.prems(1) p by simp
  next
    case None
    then have 1: "appended file (fst ` set existing) (K \<union> set (taxmapkey_keys tk)) st1"
      using appended_taxmapkey p Cons.prems(2) by blast
    have "process_items ex existing tks st1 = (None, st')"
      using Cons.prems(1) p None by simp
    then have "appended file (fst ` set existing)
        (K \<union> set (taxmapkey_keys tk) \<union> set (concat (map taxmapkey_keys tks))) st'"
      using 1 by (rule Cons.IH)
    then show ?thesis by (simp add: Un_assoc)
  qed
qed

text \<open>
  What does hold of a further run: when it completes against an output file that parses
  to the records \<open>recs\<close>, the old content is a prefix of the new one, and the records of
  the new file are \<open>recs\<close> followed by one new record for each key of the input that no
  record of the old file has.
\<close>

lemma rerun_appends_new_records:
  assumes "json_load cs = Some recs"
    and "run_status (process_housing_data ex (InputData d) (Some cs)) = Completed"
  shows "prefix cs (result_file (process_housing_data ex (InputData d) (Some cs)))
    \<and> (\<exists>new. file_records (result_file (process_housing_data ex (InputData d) (Some cs)))
                 = recs @ new
             \<and> length new = card (set (input_keys d) - set (file_keys cs)))"
proof -
  obtain existing where ex: "load_existing recs [] = Inr existing"
    using assms by (cases "load_existing recs []") (simp_all add: process_housing_data_def)
  have r: "process_housing_data ex (InputData d) (Some cs) = process_input ex (InputData d) existing cs"
    using assms(1) ex by (simp add: process_housing_data_def)
  obtain tks where tks: "py_iter d = Inr tks"
    using assms(2) unfolding r by (cases "py_iter d") (simp_all add: process_input_def)
  define st0 where "st0 = \<lparr>out_chunks = cs, new_transfers = [], first_item = (existing = []),
                         extracted = []\<rparr>"
  obtain e st where p: "process_items ex existing tks st0 = (e, st)"
    by (cases "process_items ex existing tks st0")
  have e: "e = None"
    using assms(2) p unfolding r
    by (cases e) (simp_all add: process_input_def tks st0_def[symmetric])
  have rf: "result_file (process_housing_data ex (InputData d) (Some cs)) = out_chunks st @ [Close]"
    unfolding r using p e by (simp add: process_input_def tks st0_def[symmetric])
  have E: "fst ` set existing = set (file_keys cs)"
    using load_existing_keys[OF ex] file_keys_records[of cs] json_load_records[OF assms(1)]
    by simp
  have "appended cs (fst ` set existing) {} st0"
    by (simp add: appended_def st0_def)
  then have "appended cs (fst ` set existing) ({} \<union> set (concat (map taxmapkey_keys tks))) st"
    using p e appended_items by blast
  then have a: "appended cs (set (file_keys cs)) (set (input_keys d)) st"
    by (simp add: E input_keys_def tks)
  then obtain app where app: "out_chunks st = cs @ app"
    "length (file_records app) = length (new_transfers st)"
    "distinct (map fst (new_transfers st))"
    "fst ` set (new_transfers st) = set (input_keys d) - set (file_keys cs)"
    unfolding appended_def by (elim exE conjE)
  have "length (new_transfers st) = card (fst ` set (new_transfers st))"
    using app(3) distinct_card[of "map fst (new_transfers st)"] by simp
  then have l: "length (file_records app) = card (set (input_keys d) - set (file_keys cs))"
    using app(2,4) by simp
  have "file_records (out_chunks st @ [Close]) = recs @ file_records app"
    using json_load_records[OF assms(1)] by (simp add: app(1))
  then have "\<exists>new. file_records (out_chunks st @ [Close]) = recs @ new
             \<and> length new = card (set (input_keys d) - set (file_keys cs))"
    using l by blast
  moreover have "prefix cs (out_chunks st @ [Close])"
    by (simp add: app(1))
  ultimately show ?thesis unfolding rf by blast
qed


theorem record_keys_unique_witness:
  "run_many [(extractor_12, InputData data_1), (extractor_12, InputData data_2)] None
     = Some (file_1 @ [Sep, Val rec_C, Close])
   \<and> distinct (file_keys (file_1 @ [Sep, Val rec_C, Close]))
   \<and> length (file_keys (file_1 @ [Sep, Val rec_C, Close])) = 3"
proof -
  have r: "run_many [(extractor_12, InputData data_1), (extractor_12, InputData data_2)] None
     = Some (file_1 @ [Sep, Val rec_C, Close])"
    by code_simp
  have l: "length (file_keys (file_1 @ [Sep, Val rec_C, Close])) = 3"
    by code_simp
  show ?thesis
    using r l
      record_keys_unique
        [of None "[(extractor_12, InputData data_1), (extractor_12, InputData data_2)]"]
    by (simp add: keys_unique_def)
qed

theorem missing_link_recorded_as_error_witness:
  "process_transfer extractor_12 [] (JStr ''1230010020000'') (JStr ''1-2-3-1-2'')
     (sale ''2024-07-01T00:00:00-10:00'' 300000 JNull)
     \<lparr>out_chunks = [Open], new_transfers = [], first_item = True, extracted = []\<rparr>
   = Inr \<lparr>out_chunks =
            [Open, Val (JObj [(''ParcelNumber'', JStr ''1230010020000''), (''TMK'', JStr ''1-2-3-1-2''),
               (''Date'', JStr ''2024-07-01T00:00:00-10:00''), (''Price'', JInt 300000),
               (''BureauOfConveyancesLink'', JNull), (''ConveyanceTax'', JStr ''ERROR'')])],
          new_transfers =
            [((JStr ''1230010020000'', JStr ''2024-07-01T00:00:00-10:00'', JInt 300000, JNull),
              JObj [(''ParcelNumber'', JStr ''1230010020000''), (''TMK'', JStr ''1-2-3-1-2''),
               (''Date'', JStr ''2024-07-01T00:00:00-10:00''), (''Price'', JInt 300000),
               (''BureauOfConveyancesLink'', JNull), (''ConveyanceTax'', JStr ''ERROR'')])],
          first_item = False, extracted = []\<rparr>
   \<and> process_transfer extractor_12 [] (JStr ''1230010020000'') (JStr ''1-2-3-1-2'')
       (sale ''2024-07-01T00:00:00-10:00'' 300000 (JStr []))
       \<lparr>out_chunks = [Open, Val rec_A], new_transfers = [], first_item = False,
         extracted = [JStr ''https://boc.example/a.pdf'']\<rparr>
     = Inr \<lparr>out_chunks =
            [Open, Val rec_A, Sep,
             Val (JObj [(''ParcelNumber'', JStr ''1230010020000''), (''TMK'', JStr ''1-2-3-1-2''),
               (''Date'', JStr ''2024-07-01T00:00:00-10:00''), (''Price'', JInt 300000),
               (''BureauOfConveyancesLink'', JStr []), (''ConveyanceTax'', JStr ''ERROR'')])],
          new_transfers =
            [((JStr ''1230010020000'', JStr ''2024-07-01T00:00:00-10:00'', JInt 300000, JStr []),
              JObj [(''ParcelNumber'', JStr ''1230010020000''), (''TMK'', JStr ''1-2-3-1-2''),
               (''Date'', JStr ''2024-07-01T00:00:00-10:00''), (''Price'', JInt 300000),
               (''BureauOfConveyancesLink'', JStr []), (''ConveyanceTax'', JStr ''ERROR'')])],
          first_item = False, extracted = [JStr ''https://boc.example/a.pdf'']\<rparr>
   \<and> process_transfer extractor_12 [] (JStr ''1230010020000'') (JStr ''1-2-3-1-2'') mortgage_without_link
       \<lparr>out_chunks = [Open], new_transfers = [], first_item = True, extracted = []\<rparr>
     = Inr \<lparr>out_chunks =
            [Open, Val (JObj [(''ParcelNumber'', JStr ''1230010020000''), (''TMK'', JStr ''1-2-3-1-2''),
               (''Date'', JStr ''2019-03-02T00:00:00-10:00''), (''Price'', JInt 100),
               (''BureauOfConveyancesLink'', JNull), (''ConveyanceTax'', JStr ''ERROR'')])],
          new_transfers =
            [((JStr ''1230010020000'', JStr ''2019-03-02T00:00:00-10:00'', JInt 100, JNull),
              JObj [(''ParcelNumber'', JStr ''1230010020000''), (''TMK'', JStr ''1-2-3-1-2''),
               (''Date'', JStr ''2019-03-02T00:00:00-10:00''), (''Price'', JInt 100),
               (''BureauOfConveyancesLink'', JNull), (''ConveyanceTax'', JStr ''ERROR'')])],
          first_item = False, extracted = []\<rparr>"
proof -
  have k: "hash_key (JStr ''1230010020000'', JStr d, JInt p, l)
     = Inr (JStr ''1230010020000'', JStr d, JInt p, l)" if "l = JNull \<or> l = JStr []" for d p l
    using that by (auto simp: hash_key_def hashable_def key_part_def)
  have g: "dict_get_default (sale d p l) ''Grantor'' (JObj [])
     = Inr (JObj [(''Date'', JStr d), (''Price'', JInt p),
                  (''InstrumentType'', JStr ''DEED''), (''BureauOfConveyancesLink'', l)])" for d p l
    by (simp add: sale_def dict_get_default_def)
  have f: "dict_get (JObj [(''Date'', JStr d), (''Price'', JInt p),
                  (''InstrumentType'', JStr ''DEED''), (''BureauOfConveyancesLink'', l)]) ''Date''
       = Inr (JStr d)"
     "dict_get (JObj [(''Date'', JStr d), (''Price'', JInt p),
                  (''InstrumentType'', JStr ''DEED''), (''BureauOfConveyancesLink'', l)]) ''Price''
       = Inr (JInt p)"
     "dict_get (JObj [(''Date'', JStr d), (''Price'', JInt p),
                  (''InstrumentType'', JStr ''DEED''), (''BureauOfConveyancesLink'', l)])
        ''BureauOfConveyancesLink'' = Inr l" for d p l
    by (simp_all add: dict_get_def dict_get_default_def)
  have lg: "dict_get_default mortgage_without_link ''Grantor'' (JObj [])
     = Inr (JObj [(''Date'', JStr ''2019-03-02T00:00:00-10:00''),
                  (''Price'', JInt 100), (''InstrumentType'', JStr ''MORTGAGE'')])"
    by (simp add: mortgage_without_link_def dict_get_default_def)
  have lf: "dict_get (JObj [(''Date'', JStr ''2019-03-02T00:00:00-10:00''),
                  (''Price'', JInt 100), (''InstrumentType'', JStr ''MORTGAGE'')]) ''Date''
       = Inr (JStr ''2019-03-02T00:00:00-10:00'')"
     "dict_get (JObj [(''Date'', JStr ''2019-03-02T00:00:00-10:00''),
                  (''Price'', JInt 100), (''InstrumentType'', JStr ''MORTGAGE'')]) ''Price''
       = Inr (JInt 100)"
     "dict_get (JObj [(''Date'', JStr ''2019-03-02T00:00:00-10:00''),
                  (''Price'', JInt 100), (''InstrumentType'', JStr ''MORTGAGE'')])
        ''BureauOfConveyancesLink'' = Inr JNull"
    by (simp_all add: dict_get_def dict_get_default_def)
  have 1: "process_transfer extractor_12 [] (JStr ''1230010020000'') (JStr ''1-2-3-1-2'')
     (sale ''2024-07-01T00:00:00-10:00'' 300000 JNull)
     \<lparr>out_chunks = [Open], new_transfers = [], first_item = True, extracted = []\<rparr>
   = Inr \<lparr>out_chunks =
            [Open, Val (JObj [(''ParcelNumber'', JStr ''1230010020000''), (''TMK'', JStr ''1-2-3-1-2''),
               (''Date'', JStr ''2024-07-01T00:00:00-10:00''), (''Price'', JInt 300000),
               (''BureauOfConveyancesLink'', JNull), (''ConveyanceTax'', JStr ''ERROR'')])],
          new_transfers =
            [((JStr ''1230010020000'', JStr ''2024-07-01T00:00:00-10:00'', JInt 300000, JNull),
              JObj [(''ParcelNumber'', JStr ''1230010020000''), (''TMK'', JStr ''1-2-3-1-2''),
               (''Date'', JStr ''2024-07-01T00:00:00-10:00''), (''Price'', JInt 300000),
               (''BureauOfConveyancesLink'', JNull), (''ConveyanceTax'', JStr ''ERROR'')])],
          first_item = False, extracted = []\<rparr>"
    using missing_link_recorded_as_error
      [where l = JNull and existing = "[]" and ex = extractor_12 and tmk = "JStr ''1-2-3-1-2''"
         and st = "\<lparr>out_chunks = [Open], new_transfers = [], first_item = True, extracted = []\<rparr>",
       OF g f(1) f(2) f(3) _ k]
    by simp
  have 2: "process_transfer extractor_12 [] (JStr ''1230010020000'') (JStr ''1-2-3-1-2'')
       (sale ''2024-07-01T00:00:00-10:00'' 300000 (JStr []))
       \<lparr>out_chunks = [Open, Val rec_A], new_transfers = [], first_item = False,
         extracted = [JStr ''https://boc.example/a.pdf'']\<rparr>
     = Inr \<lparr>out_chunks =
            [Open, Val rec_A, Sep,
             Val (JObj [(''ParcelNumber'', JStr ''1230010020000''), (''TMK'', JStr ''1-2-3-1-2''),
               (''Date'', JStr ''2024-07-01T00:00:00-10:00''), (''Price'', JInt 300000),
               (''BureauOfConveyancesLink'', JStr []), (''ConveyanceTax'', JStr ''ERROR'')])],
          new_transfers =
            [((JStr ''1230010020000'', JStr ''2024-07-01T00:00:00-10:00'', JInt 300000, JStr []),
              JObj [(''ParcelNumber'', JStr ''1230010020000''), (''TMK'', JStr ''1-2-3-1-2''),
               (''Date'', JStr ''2024-07-01T00:00:00-10:00''), (''Price'', JInt 300000),
               (''BureauOfConveyancesLink'', JStr []), (''ConveyanceTax'', JStr ''ERROR'')])],
          first_item = False, extracted = [JStr ''https://boc.example/a.pdf'']\<rparr>"
    using missing_link_recorded_as_error
      [where l = "JStr []" and existing = "[]" and ex = extractor_12 and tmk = "JStr ''1-2-3-1-2''"
         and st = "\<lparr>out_chunks = [Open, Val rec_A], new_transfers = [], first_item = False,
                    extracted = [JStr ''https://boc.example/a.pdf'']\<rparr>",
       OF g f(1) f(2) f(3) _ k]
    by simp
  have 3: "process_transfer extractor_12 [] (JStr ''1230010020000'') (JStr ''1-2-3-1-2'') mortgage_without_link
       \<lparr>out_chunks = [Open], new_transfers = [], first_item = True, extracted = []\<rparr>
     = Inr \<lparr>out_chunks =
            [Open, Val (JObj [(''ParcelNumber'', JStr ''1230010020000''), (''TMK'', JStr ''1-2-3-1-2''),
               (''Date'', JStr ''2019-03-02T00:00:00-10:00''), (''Price'', JInt 100),
               (''BureauOfConveyancesLink'', JNull), (''ConveyanceTax'', JStr ''ERROR'')])],
          new_transfers =
            [((JStr ''1230010020000'', JStr ''2019-03-02T00:00:00-10:00'', JInt 100, JNull),
              JObj [(''ParcelNumber'', JStr ''1230010020000''), (''TMK'', JStr ''1-2-3-1-2''),
               (''Date'', JStr ''2019-03-02T00:00:00-10:00''), (''Price'', JInt 100),
               (''BureauOfConveyancesLink'', JNull), (''ConveyanceTax'', JStr ''ERROR'')])],
          first_item = False, extracted = []\<rparr>"
    using missing_link_recorded_as_error
      [where l = JNull and existing = "[]" and ex = extractor_12 and tmk = "JStr ''1-2-3-1-2''"
         and st = "\<lparr>out_chunks = [Open], new_transfers = [], first_item = True, extracted = []\<rparr>",
       OF lg lf(1) lf(2) lf(3) _ k]
    by simp
  show ?thesis using 1 2 3 by simp
qed

lemma rerun_appends_new_records_example:
  "prefix file_1 (result_file (process_housing_data extractor_12 (InputData data_2) (Some file_1)))
   \<and> file_records (result_file (process_housing_data extractor_12 (InputData data_2) (Some file_1)))
       = [rec_A, rec_B, rec_C]
   \<and> card (set (input_keys data_2) - set (file_keys file_1)) = 1"
proof -
  have j: "json_load file_1 = Some [rec_A, rec_B]"
    by code_simp
  have r: "process_housing_data extractor_12 (InputData data_2) (Some file_1) =
     \<lparr>result_file = file_1 @ [Sep, Val rec_C, Close], run_status = Completed,
       extractor_calls = [JStr ''https://boc.example/c.pdf'']\<rparr>"
    by code_simp
  have s: "run_status (process_housing_data extractor_12 (InputData data_2) (Some file_1)) = Completed"
    by (simp add: r)
  have c: "card (set (input_keys data_2) - set (file_keys file_1)) = 1"
    by code_simp
  have f: "file_records (file_1 @ [Sep, Val rec_C, Close]) = [rec_A, rec_B, rec_C]"
    by (simp add: file_1_def)
  show ?thesis
    using rerun_appends_new_records[OF j s] c f by (simp add: r)
qed

subsection \<open>The framing of the output file\<close>

lemma parse_items_shape:
  "parse_items zs = Some vs \<Longrightarrow>
     zs \<noteq> [] \<and> last zs = Close \<and> Close \<notin> set (butlast zs) \<and> (\<forall>c. Comment c \<notin> set zs)"
  by (induction zs arbitrary: vs rule: parse_items.induct) (auto split: if_splits)

lemma json_load_shape:
  assumes "json_load cs = Some recs"
  shows "cs \<noteq> [] \<and> last cs = Close \<and> Close \<notin> set (butlast cs) \<and> (\<forall>c. Comment c \<notin> set cs)"
proof -
  from assms obtain rest where c: "cs = Open # rest"
    by (auto simp: json_load_def split: list.splits chunk.splits)
  show ?thesis
  proof (cases "rest = [Close]")
    case True
    then show ?thesis using c by simp
  next
    case False
    then have "parse_items rest = Some recs"
      using assms c by (simp add: json_load_def)
    then show ?thesis
      using parse_items_shape[of rest recs] c by auto
  qed
qed

lemma json_load_comment: "Comment c \<in> set cs \<Longrightarrow> json_load cs = None"
  using json_load_shape[of cs] by (cases "json_load cs") auto

lemma json_load_after_close: "ys \<noteq> [] \<Longrightarrow> json_load (xs @ Close # ys) = None"
proof (cases "json_load (xs @ Close # ys)")
  case None
  then show ?thesis by simp
next
  case (Some recs)
  assume "ys \<noteq> []"
  then have "Close \<in> set (butlast (xs @ Close # ys))"
    by (simp add: butlast_append)
  then show ?thesis using json_load_shape[OF Some] by simp
qed

lemma json_load_extended:
  assumes "json_load cs = Some recs" and "ys \<noteq> []"
  shows "json_load (cs @ ys) = None"
proof -
  have "cs \<noteq> []" "last cs = Close"
    using json_load_shape[OF assms(1)] by simp_all
  then have "cs = butlast cs @ [Close]"
    by (metis append_butlast_last_id)
  then have e: "cs @ ys = butlast cs @ Close # ys"
    by (metis append.assoc append_Cons append_Nil)
  show ?thesis unfolding e using assms(2) by (rule json_load_after_close)
qed


text \<open>The writers of the fetch script only append to the file.\<close>

lemma write_to_file_appends:
  "output_file w = Some f \<Longrightarrow> \<exists>app. output_file (write_to_file m l w) = Some (f @ app)"
  by (simp add: write_to_file_def)

lemma write_error_appends:
  "output_file w = Some f \<Longrightarrow> \<exists>app. output_file (write_error m w) = Some (f @ app)"
  by (simp add: write_error_def)

lemma write_batch_appends:
  "output_file w = Some f \<Longrightarrow> \<exists>app. output_file (write_batch l rs w) = Some (f @ app)"
proof (induction rs arbitrary: w f)
  case Nil
  then show ?case by simp
next
  case (Cons r rs)
  from write_to_file_appends[OF Cons.prems] obtain a1 where
    1: "output_file (write_to_file r (l \<and> rs = []) w) = Some (f @ a1)"
    by blast
  from Cons.IH[OF 1] obtain a2 where
    "output_file (write_batch l rs (write_to_file r (l \<and> rs = []) w)) = Some ((f @ a1) @ a2)"
    by blast
  then show ?case by simp
qed

lemma fetch_batch_appends:
  assumes "output_file w = Some f"
  shows "\<exists>app. output_file (snd (fetch_batch api a n i w)) = Some (f @ app)"
proof -
  define w1 where "w1 = w\<lparr>issued := issued w @ [batch_request a i]\<rparr>"
  have o: "output_file w1 = Some f"
    using assms by (simp add: w1_def)
  show ?thesis
  proof (cases "api (batch_request a i)")
    case (RequestException e resp)
    then show ?thesis using assms
      by (cases resp) (simp_all add: fetch_batch_def Let_def write_error_def)
  next
    case (Response d)
    show ?thesis
    proof (cases "response_results d")
      case (Inl err)
      then show ?thesis using Response o
        by (simp add: fetch_batch_def Let_def w1_def[symmetric])
    next
      case (Inr results)
      from write_batch_appends[OF o] obtain a1 where
        "output_file (write_batch (int i = n - 1) results w1) = Some (f @ a1)"
        by blast
      then show ?thesis using Response Inr
        by (simp add: fetch_batch_def Let_def w1_def[symmetric])
    qed
  qed
qed

lemma fetch_batches_appends:
  "output_file w = Some f \<Longrightarrow>
     \<exists>app. output_file (snd (fetch_batches api a n js w)) = Some (f @ app)"
proof (induction js arbitrary: w f)
  case Nil
  then show ?case by simp
next
  case (Cons i js)
  obtain st w1 where fb: "fetch_batch api a n i w = (st, w1)"
    by (cases "fetch_batch api a n i w")
  from fetch_batch_appends[OF Cons.prems, of api a n i] obtain a1 where
    1: "output_file w1 = Some (f @ a1)"
    using fb by auto
  show ?case
  proof (cases st)
    case (Some err)
    then show ?thesis using fb 1 by simp
  next
    case None
    from Cons.IH[OF 1] obtain a2 where
      "output_file (snd (fetch_batches api a n js w1)) = Some ((f @ a1) @ a2)"
      by blast
    then show ?thesis using fb None by simp
  qed
qed

lemma fetch_results_appends:
  assumes "output_file w = Some f" and "fetch_results api a w = (st, w')"
  shows "\<exists>app. output_file w' = Some (f @ app @ (if st = None then [Close] else []))"
proof (cases "batch_size a = 0")
  case True
  then show ?thesis using assms by (auto simp: fetch_results_def)
next
  case False
  obtain s1 w1 where fb:
    "fetch_batches api a (num_requests_of a) [0..<nat (num_requests_of a)] w = (s1, w1)"
    by (cases "fetch_batches api a (num_requests_of a) [0..<nat (num_requests_of a)] w")
  from fetch_batches_appends[OF assms(1), of api a "num_requests_of a" "[0..<nat (num_requests_of a)]"]
  obtain app where 1: "output_file w1 = Some (f @ app)"
    using fb by auto
  show ?thesis
  proof (cases s1)
    case None
    then have "st = None" "w' = close_array w1"
      using assms(2) False fb by (simp_all add: fetch_results_def Let_def)
    then show ?thesis using 1 by (simp add: close_array_def)
  next
    case (Some err)
    then have "st = Some err" "w' = w1"
      using assms(2) False fb by (simp_all add: fetch_results_def Let_def)
    then show ?thesis using 1 by simp
  qed
qed

lemma fatal_error_file:
  "output_file w = Some f \<Longrightarrow>
     output_file (fatal_error msg e w) = Some (f @ [Comment (''ERROR: '' @ ''Fatal error: '' @ msg e), Close])"
  by (simp add: fatal_error_def close_array_def write_error_def)

lemma fetch_main_not_an_array:
  "\<exists>f. output_file (fetch_main api msg) = Some f \<and> json_load f = None"
proof -
  define a1 where "a1 = \<lparr>query = query_first_half, start_index = 0, end_index = 7967, batch_size = 1000\<rparr>"
  define a2 where "a2 = \<lparr>query = query_second_half, start_index = 0, end_index = 8512,
                    batch_size = 1000\<rparr>"
  obtain s1 w1 where r1: "fetch_results api a1 new_client = (s1, w1)"
    by (cases "fetch_results api a1 new_client")
  have o: "output_file new_client = Some [Open]"
    by (simp add: new_client_def)
  from fetch_results_appends[OF o r1] obtain p1 where
    f1: "output_file w1 = Some ([Open] @ p1 @ (if s1 = None then [Close] else []))"
    by blast
  show ?thesis
  proof (cases s1)
    case (Some e)
    then have m: "fetch_main api msg = fatal_error msg e w1"
      using r1 by (simp add: fetch_main_def a1_def[symmetric])
    have "output_file w1 = Some ([Open] @ p1)"
      using f1 Some by simp
    then have "output_file (fetch_main api msg)
        = Some (([Open] @ p1) @ [Comment (''ERROR: '' @ ''Fatal error: '' @ msg e), Close])"
      unfolding m by (rule fatal_error_file)
    moreover have "json_load (([Open] @ p1) @ [Comment (''ERROR: '' @ ''Fatal error: '' @ msg e), Close]) = None"
      by (rule json_load_comment[of "''ERROR: '' @ ''Fatal error: '' @ msg e"]) simp
    ultimately show ?thesis by blast
  next
    case None
    then have f1': "output_file w1 = Some (([Open] @ p1) @ [Close])"
      using f1 by simp
    obtain s2 w2 where r2: "fetch_results api a2 w1 = (s2, w2)"
      by (cases "fetch_results api a2 w1")
    from fetch_results_appends[OF f1' r2] obtain p2 where
      f2: "output_file w2 = Some ((([Open] @ p1) @ [Close]) @ p2 @ (if s2 = None then [Close] else []))"
      by blast
    show ?thesis
    proof (cases s2)
      case (Some e)
      then have m: "fetch_main api msg = fatal_error msg e w2"
        using r1 r2 None by (simp add: fetch_main_def a1_def[symmetric] a2_def[symmetric])
      have "output_file w2 = Some ((([Open] @ p1) @ [Close]) @ p2)"
        using f2 Some by simp
      then have "output_file (fetch_main api msg)
          = Some (((([Open] @ p1) @ [Close]) @ p2) @ [Comment (''ERROR: '' @ ''Fatal error: '' @ msg e), Close])"
        unfolding m by (rule fatal_error_file)
      moreover have "json_load (((([Open] @ p1) @ [Close]) @ p2) @ [Comment (''ERROR: '' @ ''Fatal error: '' @ msg e), Close]) = None"
        by (rule json_load_comment[of "''ERROR: '' @ ''Fatal error: '' @ msg e"]) simp
      ultimately show ?thesis by blast
    next
      case n2: None
      then have m: "fetch_main api msg = w2"
        using r1 r2 None by (simp add: fetch_main_def a1_def[symmetric] a2_def[symmetric])
      have e: "output_file w2 = Some (([Open] @ p1) @ Close # (p2 @ [Close]))"
        using f2 n2 by simp
      have "json_load (([Open] @ p1) @ Close # (p2 @ [Close])) = None"
        by (rule json_load_after_close) simp
      then show ?thesis using e m by blast
    qed
  qed
qed


text \<open>The enrichment step only appends to the file it has loaded.\<close>

lemma process_transfers_appends:
  "\<exists>app. out_chunks (snd (process_transfers ex existing pn tmk ts st)) = out_chunks st @ app"
proof (induction ts arbitrary: st)
  case Nil
  then show ?case by simp
next
  case (Cons t ts)
  show ?case
  proof (cases "process_transfer ex existing pn tmk t st")
    case (Inl e)
    then show ?thesis by simp
  next
    case (Inr st1)
    from process_transfer_step[OF Inr] obtain a1 where 1: "out_chunks st1 = out_chunks st @ a1"
      by (auto split: if_splits)
    from Cons.IH[of st1] obtain a2 where
      "out_chunks (snd (process_transfers ex existing pn tmk ts st1)) = out_chunks st1 @ a2"
      by blast
    then show ?thesis using Inr 1 by simp
  qed
qed

lemma process_taxmapkey_appends:
  "\<exists>app. out_chunks (snd (process_taxmapkey ex existing tk st)) = out_chunks st @ app"
  unfolding process_taxmapkey_def
  by (auto split: sum.splits simp: process_transfers_appends)

lemma process_items_appends:
  "\<exists>app. out_chunks (snd (process_items ex existing tks st)) = out_chunks st @ app"
proof (induction tks arbitrary: st)
  case Nil
  then show ?case by simp
next
  case (Cons tk tks)
  obtain e st1 where p: "process_taxmapkey ex existing tk st = (e, st1)"
    by (cases "process_taxmapkey ex existing tk st")
  from process_taxmapkey_appends[of ex existing tk st] obtain a1 where
    1: "out_chunks st1 = out_chunks st @ a1"
    using p by auto
  show ?case
  proof (cases e)
    case (Some err)
    then show ?thesis using p 1 by simp
  next
    case None
    from Cons.IH[of st1] obtain a2 where
      "out_chunks (snd (process_items ex existing tks st1)) = out_chunks st1 @ a2"
      by blast
    then show ?thesis using p None 1 by simp
  qed
qed

lemma process_input_appends:
  "\<exists>app. result_file (process_input ex input existing file)
      = file @ app @ (if run_status (process_input ex input existing file) = InputDecodeError
                      then [] else [Close])"
proof (cases input)
  case InputMissing
  then show ?thesis by (simp add: process_input_def)
next
  case InputInvalid
  then show ?thesis by (simp add: process_input_def)
next
  case (InputData d)
  show ?thesis
  proof (cases "py_iter d")
    case (Inl e)
    then show ?thesis using InputData by (simp add: process_input_def)
  next
    case (Inr tks)
    define st0 where "st0 = \<lparr>out_chunks = file, new_transfers = [], first_item = (existing = []),
                         extracted = []\<rparr>"
    obtain e st where p: "process_items ex existing tks st0 = (e, st)"
      by (cases "process_items ex existing tks st0")
    from process_items_appends[of ex existing tks st0] obtain app where
      "out_chunks st = file @ app"
      using p by (auto simp: st0_def)
    then show ?thesis
      using InputData Inr p by (cases e) (simp_all add: process_input_def st0_def[symmetric])
  qed
qed

lemma rerun_not_an_array:
  assumes "json_load cs = Some recs"
    and "run_status (process_housing_data ex input (Some cs)) \<noteq> InputDecodeError"
  shows "json_load (result_file (process_housing_data ex input (Some cs))) = None"
proof (cases "load_existing recs []")
  case (Inl e)
  then have "result_file (process_housing_data ex input (Some cs)) = cs @ [Close]"
    using assms(1) by (simp add: process_housing_data_def)
  then show ?thesis using json_load_extended[OF assms(1), of "[Close]"] by simp
next
  case (Inr existing)
  then have r: "process_housing_data ex input (Some cs) = process_input ex input existing cs"
    using assms(1) by (simp add: process_housing_data_def)
  from process_input_appends[of ex input existing cs] obtain app where
    "result_file (process_input ex input existing cs) = cs @ (app @ [Close])"
    using assms(2) unfolding r by auto
  then show ?thesis
    unfolding r using json_load_extended[OF assms(1), of "app @ [Close]"] by simp
qed


lemma fetch_batches_api_empty:
  "fst (fetch_batches api_empty a n js w) = None
     \<and> output_file (snd (fetch_batches api_empty a n js w)) = output_file w"
proof (induction js arbitrary: w)
  case Nil
  then show ?case by simp
next
  case (Cons i js)
  have r: "response_results (JObj [(''data'', JList [])]) = Inr []"
    by (simp add: response_results_def py_contains_def py_subscript_def py_iter_def)
  have "fetch_batch api_empty a n i w = (None, w\<lparr>issued := issued w @ [batch_request a i]\<rparr>)"
    by (simp add: fetch_batch_def api_empty_def r Let_def)
  then show ?case using Cons.IH[of "w\<lparr>issued := issued w @ [batch_request a i]\<rparr>"] by simp
qed

lemma fetch_results_api_empty:
  assumes "batch_size a \<noteq> 0" and "output_file w = Some f"
  shows "fst (fetch_results api_empty a w) = None
     \<and> output_file (snd (fetch_results api_empty a w)) = Some (f @ [Close])"
proof -
  obtain s1 w1 where fb:
    "fetch_batches api_empty a (num_requests_of a) [0..<nat (num_requests_of a)] w = (s1, w1)"
    by (cases "fetch_batches api_empty a (num_requests_of a) [0..<nat (num_requests_of a)] w")
  have "s1 = None" "output_file w1 = Some f"
    using fetch_batches_api_empty[of a "num_requests_of a" "[0..<nat (num_requests_of a)]" w] fb assms(2)
    by simp_all
  then show ?thesis
    using assms(1) fb by (simp add: fetch_results_def Let_def close_array_def)
qed

lemma fetch_main_api_empty:
  "output_file (fetch_main api_empty msg) = Some [Open, Close, Close]"
proof -
  define a1 where "a1 = \<lparr>query = query_first_half, start_index = 0, end_index = 7967, batch_size = 1000\<rparr>"
  define a2 where "a2 = \<lparr>query = query_second_half, start_index = 0, end_index = 8512,
                    batch_size = 1000\<rparr>"
  obtain s1 w1 where r1: "fetch_results api_empty a1 new_client = (s1, w1)"
    by (cases "fetch_results api_empty a1 new_client")
  have 1: "s1 = None" "output_file w1 = Some ([Open] @ [Close])"
    using fetch_results_api_empty[of a1 new_client "[Open]"] r1
    by (simp_all add: a1_def new_client_def)
  obtain s2 w2 where r2: "fetch_results api_empty a2 w1 = (s2, w2)"
    by (cases "fetch_results api_empty a2 w1")
  have 2: "s2 = None" "output_file w2 = Some (([Open] @ [Close]) @ [Close])"
    using fetch_results_api_empty[of a2 w1 "[Open] @ [Close]"] r2 1(2)
    by (simp_all add: a2_def)
  have "fetch_main api_empty msg = w2"
    using r1 r2 1(1) 2(1) by (simp add: fetch_main_def a1_def[symmetric] a2_def[symmetric])
  then show ?thesis using 2(2) by simp
qed

text \<open>
  C2. The output file is to remain a single array between runs, with its closing bracket
  written exactly once. It does not: \<^verbatim>\<open>main\<close> of the fetch script calls
  \<^verbatim>\<open>fetch_results\<close> twice on one client and each call writes the closing bracket (and
  the handler of a fatal error writes a comment line and the bracket), so whatever the
  remote API answers the file it leaves is not a JSON array; and a further run of the
  enrichment step on a file that parses appends after the closing bracket and closes
  again, so its result does not parse either.
\<close>

theorem output_file_not_a_single_array:
  "(\<exists>f. output_file (fetch_main api msg) = Some f \<and> json_load f = None)
   \<and> (json_load cs = Some recs
        \<and> run_status (process_housing_data ex input (Some cs)) \<noteq> InputDecodeError
      \<longrightarrow> json_load (result_file (process_housing_data ex input (Some cs))) = None)"
  using fetch_main_not_an_array rerun_not_an_array by blast

theorem output_file_not_a_single_array_witness:
  "output_file (fetch_main api_empty msg_0) = Some [Open, Close, Close]
   \<and> json_load [Open, Close, Close] = None
   \<and> json_load file_1 = Some [rec_A, rec_B]
   \<and> result_file (process_housing_data extractor_12 (InputData data_2) (Some file_1))
       = [Open, Val rec_A, Sep, Val rec_B, Close, Sep, Val rec_C, Close]
   \<and> json_load [Open, Val rec_A, Sep, Val rec_B, Close, Sep, Val rec_C, Close] = None"
proof -
  have j: "json_load file_1 = Some [rec_A, rec_B]"
    by code_simp
  have r: "process_housing_data extractor_12 (InputData data_2) (Some file_1) =
     \<lparr>result_file = [Open, Val rec_A, Sep, Val rec_B, Close, Sep, Val rec_C, Close],
       run_status = Completed, extractor_calls = [JStr ''https://boc.example/c.pdf'']\<rparr>"
    by code_simp
  have s: "run_status (process_housing_data extractor_12 (InputData data_2) (Some file_1))
             \<noteq> InputDecodeError"
    by (simp add: r)
  show ?thesis
    using output_file_not_a_single_array
            [of api_empty msg_0 file_1 "[rec_A, rec_B]" extractor_12 "InputData data_2"]
          j s fetch_main_api_empty[of msg_0]
    by (simp add: r)
qed

text \<open>
  C3. A run against an output file that holds \<open>N\<close> records, with an input of the same
  \<open>N\<close> transfers and \<open>M\<close> new ones, is to leave \<open>N + M\<close> records with the first \<open>N\<close>
  unchanged. Run against the closed file of a first run, the loop appends the new record
  after the closing bracket, so the result holds three records but is no JSON array; run
  against that result, the loader fails to parse it, starts a new file and extracts
  every transfer again: the old content is not kept, and the first record comes back
  with another tax.
\<close>

theorem rerun_rewrites_records:
  "json_load file_1 = Some [rec_A, rec_B]
   \<and> result_file (process_housing_data extractor_12 (InputData data_2) (Some file_1)) = file_2
   \<and> file_records file_2 = [rec_A, rec_B, rec_C]
   \<and> json_load file_2 = None
   \<and> process_housing_data extractor_not_found (InputData data_3) (Some file_2)
       = \<lparr>result_file = file_3, run_status = Completed,
           extractor_calls = [JStr ''https://boc.example/a.pdf'', JStr ''https://boc.example/c.pdf'',
                              JStr ''https://boc.example/d.pdf'']\<rparr>
   \<and> \<not> prefix file_2 file_3
   \<and> rec_A \<notin> set (file_records file_3)"
  by code_simp

theorem rerun_rewrites_records_witness:
  "json_load (result_file (process_housing_data extractor_12 (InputData data_2) (Some file_1))) = None
   \<and> take 3 (file_records (result_file
         (process_housing_data extractor_not_found (InputData data_3) (Some file_2))))
       \<noteq> [rec_A, rec_B, rec_C]"
proof -
  have "take 3 (file_records file_3) \<noteq> [rec_A, rec_B, rec_C]"
    by code_simp
  then show ?thesis using rerun_rewrites_records by simp
qed

subsection \<open>The flattened export\<close>

lemma not_numeric_literals:
  "\<not> float_accepts ''ERROR''" "\<not> float_accepts ''Not found''"
  by code_simp+

lemma clean_conveyance_tax_flat: "clean_conveyance_tax tax = Inr (flat_tax tax)"
proof (cases tax)
  case (JStr s)
  show ?thesis
  proof (cases "tax \<in> set [JStr ''ERROR'', JStr ''Not found'']")
    case True
    then have "s = ''ERROR'' \<or> s = ''Not found''"
      using JStr by auto
    then have "\<not> numeric_tax tax"
      using JStr not_numeric_literals by (auto simp: numeric_tax_def)
    then show ?thesis using True JStr by (simp add: clean_conveyance_tax_def flat_tax_def)
  next
    case False
    then show ?thesis using JStr
      by (simp add: clean_conveyance_tax_def flat_tax_def numeric_tax_def replace_commas_def
          py_float_check_def)
  qed
qed (simp_all add: clean_conveyance_tax_def flat_tax_def replace_commas_def)

lemma csv_row_dict: "is_dict item \<Longrightarrow> csv_row item = Inr (flat_row item)"
  by (cases item)
     (simp_all add: is_dict_def csv_row_def dict_get_default_def clean_conveyance_tax_flat
        flat_row_def field_or_empty_def)

lemma csv_rows_dicts:
  "list_all is_dict items \<Longrightarrow> csv_rows items rows = (None, rows @ map flat_row items)"
  by (induction items arbitrary: rows) (simp_all add: csv_row_dict)

text \<open>
  C8. In the flattened export a tax value that is a numeric string with commas, such as
  \<^verbatim>\<open>1,234.50\<close>, is written without them, every value that is not numeric (\<^verbatim>\<open>Not found\<close>
  and \<^verbatim>\<open>ERROR\<close> among them) is written as \<^verbatim>\<open>ERROR\<close>, and each record gives one row of
  the columns ParcelNumber, Date, Price, ConveyanceTax under the header.
\<close>

theorem csv_rows_flattened:
  "flat_tax (JStr ''1,234.50'') = JStr ''1234.50''
   \<and> flat_tax (JStr ''Not found'') = JStr ''ERROR''
   \<and> flat_tax (JStr ''ERROR'') = JStr ''ERROR''
   \<and> clean_conveyance_tax tax = Inr (flat_tax tax)
   \<and> (\<not> numeric_tax tax \<longrightarrow> clean_conveyance_tax tax = Inr (JStr ''ERROR''))
   \<and> (list_all is_dict items \<longrightarrow>
        convert_to_csv (InputData (JList items))
          = (Some (csv_header # map flat_row items), Completed))"
proof (intro conjI impI)
  show "flat_tax (JStr ''1,234.50'') = JStr ''1234.50''"
    by code_simp
  show "flat_tax (JStr ''Not found'') = JStr ''ERROR''"
    by code_simp
  show "flat_tax (JStr ''ERROR'') = JStr ''ERROR''"
    by code_simp
  show "clean_conveyance_tax tax = Inr (flat_tax tax)"
    by (rule clean_conveyance_tax_flat)
  show "clean_conveyance_tax tax = Inr (JStr ''ERROR'')" if "\<not> numeric_tax tax"
    using that by (cases tax) (simp_all add: clean_conveyance_tax_flat flat_tax_def)
  show "convert_to_csv (InputData (JList items))
          = (Some (csv_header # map flat_row items), Completed)" if "list_all is_dict items"
    using that by (simp add: convert_to_csv_def py_iter_def csv_rows_dicts)
qed

theorem csv_rows_flattened_witness:
  "clean_conveyance_tax (JStr ''1,234.50'') = Inr (JStr ''1234.50'')
   \<and> clean_conveyance_tax (JStr ''Not found'') = Inr (JStr ''ERROR'')
   \<and> clean_conveyance_tax (JStr ''Error accessing PDF: timeout'') = Inr (JStr ''ERROR'')
   \<and> convert_to_csv (InputData (JList [tax_record (JStr ''1,234.50''), tax_record (JStr ''Not found'')]))
       = (Some [[JStr ''ParcelNumber'', JStr ''Date'', JStr ''Price'', JStr ''ConveyanceTax''],
                [JStr ''1230010020000'', JStr ''2024-06-15T00:00:00-10:00'', JInt 250000,
                 JStr ''1234.50''],
                [JStr ''1230010020000'', JStr ''2024-06-15T00:00:00-10:00'', JInt 250000,
                 JStr ''ERROR'']],
          Completed)"
proof -
  have n: "\<not> numeric_tax (JStr ''Error accessing PDF: timeout'')"
    by code_simp
  have d: "list_all is_dict [tax_record (JStr ''1,234.50''), tax_record (JStr ''Not found'')]"
    by (simp add: is_dict_def tax_record_def)
  have r: "map flat_row [tax_record (JStr ''1,234.50''), tax_record (JStr ''Not found'')] =
     [[JStr ''1230010020000'', JStr ''2024-06-15T00:00:00-10:00'', JInt 250000, JStr ''1234.50''],
      [JStr ''1230010020000'', JStr ''2024-06-15T00:00:00-10:00'', JInt 250000, JStr ''ERROR'']]"
    by code_simp
  have 1: "clean_conveyance_tax (JStr ''1,234.50'') = Inr (JStr ''1234.50'')"
    using csv_rows_flattened [of "JStr ''1,234.50''" "[]"] by simp
  have 2: "clean_conveyance_tax (JStr ''Not found'') = Inr (JStr ''ERROR'')"
    using csv_rows_flattened [of "JStr ''Not found''" "[]"] by simp
  have 3: "clean_conveyance_tax (JStr ''Error accessing PDF: timeout'') = Inr (JStr ''ERROR'')"
    using n csv_rows_flattened [of "JStr ''Error accessing PDF: timeout''" "[]"] by blast
  have 4: "convert_to_csv (InputData (JList [tax_record (JStr ''1,234.50''), tax_record (JStr ''Not found'')]))
       = (Some (csv_header # map flat_row [tax_record (JStr ''1,234.50''), tax_record (JStr ''Not found'')]),
          Completed)"
    using d csv_rows_flattened [of "JStr []"
        "[tax_record (JStr ''1,234.50''), tax_record (JStr ''Not found'')]"] by blast
  show ?thesis
    unfolding 1 2 3 4 r by (simp add: csv_header_def)
qed

end
